theory Spec2Isabelle
  imports Main
begin

section \<open>Memory, objects and element types\<close>

text \<open>
  The container of \<^verbatim>\<open>vector.h\<close> works on raw memory obtained from
  \<^verbatim>\<open>operator new\<close>, in which it constructs and destroys objects of the element type
  \<^verbatim>\<open>T\<close> by hand. The model keeps that memory explicit. A block is a list of slots, one per
  element; a slot is either uninitialised storage or holds a constructed object. A pointer
  \<^verbatim>\<open>T*\<close> is a block address (or null) together with an element offset.

  Sizes and capacities (\<^verbatim>\<open>size_t\<close>) are natural numbers. The two subtractions of the source
  that can go below zero are written with \<open>size_sub\<close>, and the byte count
  \<^verbatim>\<open>n * sizeof(T)\<close> passed to \<^verbatim>\<open>operator new\<close> is taken modulo \<open>2 ^ 64\<close>, as \<^verbatim>\<open>size_t\<close>
  wraps. The product \<^verbatim>\<open>size_ * 2\<close> is not wrapped: a vector of \<open>2 ^ 63\<close> elements does not
  fit in any address space.
\<close>

type_synonym addr = nat

datatype 'a slot = Raw | Obj 'a

type_synonym ptr = "addr option \<times> nat"

text \<open>
  The store: the blocks allocated at present, the next address \<^verbatim>\<open>operator new\<close> hands out,
  the number of element slots it can still provide, the size \<^verbatim>\<open>sizeof(T)\<close> in bytes of one
  slot, and three counters that only observe the run: copy constructions, move
  constructions, and objects whose storage was given back (or overwritten by a placement
  new) while they were still constructed.
\<close>

record 'a store =
  blocks :: "addr \<rightharpoonup> 'a slot list"
  fresh :: addr
  room :: nat
  elem_size :: nat
  copied :: nat
  moved :: nat
  lost :: nat

text \<open>
  What the container needs to know of the element type \<^verbatim>\<open>T\<close>: the two compile-time traits
  read by \<^verbatim>\<open>if constexpr\<close>, which values make the copy constructor throw, the value a move
  leaves behind in its source (the identity for \<^verbatim>\<open>int\<close>, the empty string for
  \<^verbatim>\<open>std::string\<close>), and the value of a value-initialised object. Value initialisation,
  move construction, both assignments and the destructor are taken as non-throwing.
\<close>

record 'a elem_type =
  nothrow_move_constructible :: bool
  copy_constructible :: bool
  copy_throws :: "'a \<Rightarrow> bool"
  moved_from :: "'a \<Rightarrow> 'a"
  value_init :: 'a

text \<open>
  A call either returns, or leaves by an exception (\<^verbatim>\<open>std::bad_alloc\<close> or whatever the
  copy constructor throws) with the state the unwinding produced, or runs into undefined
  behaviour (a failed \<^verbatim>\<open>assert\<close>, an access outside a block or to a slot that holds no
  object, a release of memory that is not allocated, an invalid iterator range).
\<close>

datatype fault = BadAlloc | CopyFailed

datatype ('r, 'x) outcome = Ok 'r | Throw fault 'x | Violation

definition size_sub :: "nat \<Rightarrow> nat \<Rightarrow> nat" where
  "size_sub a b = (if b \<le> a then a - b else a + 2 ^ 64 - b)"

definition ptr_add :: "ptr \<Rightarrow> nat \<Rightarrow> ptr" where
  "ptr_add p k = (fst p, snd p + k)"

definition slot_at :: "'a store \<Rightarrow> ptr \<Rightarrow> 'a slot option" where
  "slot_at s p =
     (case fst p of
        None \<Rightarrow> None
      | Some a \<Rightarrow>
          (case blocks s a of
             None \<Rightarrow> None
           | Some xs \<Rightarrow> if snd p < length xs then Some (xs ! snd p) else None))"

definition put_slot :: "'a store \<Rightarrow> ptr \<Rightarrow> 'a slot \<Rightarrow> 'a store" where
  "put_slot s p c =
     (case fst p of
        None \<Rightarrow> s
      | Some a \<Rightarrow>
          (case blocks s a of
             None \<Rightarrow> s
           | Some xs \<Rightarrow> s\<lparr>blocks := (blocks s)(a \<mapsto> xs[snd p := c])\<rparr>))"

subsection \<open>Operations on one object\<close>

text \<open>Placement new of a given value: \<^verbatim>\<open>new (p) T{...}\<close>.\<close>

definition construct_at :: "ptr \<Rightarrow> 'a \<Rightarrow> 'a store \<Rightarrow> 'a store option" where
  "construct_at p v s =
     (case slot_at s p of
        None \<Rightarrow> None
      | Some Raw \<Rightarrow> Some (put_slot s p (Obj v))
      | Some (Obj w) \<Rightarrow> Some (put_slot (s\<lparr>lost := lost s + 1\<rparr>) p (Obj v)))"

text \<open>Reading the object behind a pointer.\<close>

definition load :: "'a store \<Rightarrow> ptr \<Rightarrow> 'a option" where
  "load s p = (case slot_at s p of Some (Obj v) \<Rightarrow> Some v | _ \<Rightarrow> None)"

text \<open>Assigning to the object behind a pointer.\<close>

definition assign_at :: "ptr \<Rightarrow> 'a \<Rightarrow> 'a store \<Rightarrow> 'a store option" where
  "assign_at p v s =
     (case slot_at s p of Some (Obj w) \<Rightarrow> Some (put_slot s p (Obj v)) | _ \<Rightarrow> None)"

text \<open>\<^verbatim>\<open>std::destroy_at(p)\<close>: the destructor call.\<close>

definition destroy_at :: "ptr \<Rightarrow> 'a store \<Rightarrow> 'a store option" where
  "destroy_at p s =
     (case slot_at s p of Some (Obj w) \<Rightarrow> Some (put_slot s p Raw) | _ \<Rightarrow> None)"

text \<open>\<^verbatim>\<open>new (dst) T(*src)\<close>: the copy constructor, which may throw.\<close>

definition copy_construct ::
  "'a elem_type \<Rightarrow> ptr \<Rightarrow> ptr \<Rightarrow> 'a store \<Rightarrow> ('a store, 'a store) outcome" where
  "copy_construct T src dst s =
     (case load s src of
        None \<Rightarrow> Violation
      | Some v \<Rightarrow>
          if copy_throws T v then Throw CopyFailed s
          else (case construct_at dst v s of
                  None \<Rightarrow> Violation
                | Some s1 \<Rightarrow> Ok (s1\<lparr>copied := copied s1 + 1\<rparr>)))"

text \<open>\<^verbatim>\<open>new (dst) T(std::move(*src))\<close>: the move constructor.\<close>

definition move_construct :: "'a elem_type \<Rightarrow> ptr \<Rightarrow> ptr \<Rightarrow> 'a store \<Rightarrow> 'a store option" where
  "move_construct T src dst s =
     (case load s src of
        None \<Rightarrow> None
      | Some v \<Rightarrow>
          (case construct_at dst v s of
             None \<Rightarrow> None
           | Some s1 \<Rightarrow> Some ((put_slot s1 src (Obj (moved_from T v)))\<lparr>moved := moved s1 + 1\<rparr>)))"

text \<open>\<^verbatim>\<open>*dst = *src\<close> and \<^verbatim>\<open>*dst = std::move(*src)\<close>.\<close>

definition copy_assign :: "ptr \<Rightarrow> ptr \<Rightarrow> 'a store \<Rightarrow> 'a store option" where
  "copy_assign src dst s =
     (case load s src of None \<Rightarrow> None | Some v \<Rightarrow> assign_at dst v s)"

definition move_assign :: "'a elem_type \<Rightarrow> ptr \<Rightarrow> ptr \<Rightarrow> 'a store \<Rightarrow> 'a store option" where
  "move_assign T src dst s =
     (case load s src of
        None \<Rightarrow> None
      | Some v \<Rightarrow>
          (case assign_at dst v s of
             None \<Rightarrow> None
           | Some s1 \<Rightarrow> Some (put_slot s1 src (Obj (moved_from T v)))))"

subsection \<open>The algorithms of the standard library used by the container\<close>

text \<open>\<^verbatim>\<open>std::destroy_n(first, n)\<close>.\<close>

fun destroy_n :: "ptr \<Rightarrow> nat \<Rightarrow> 'a store \<Rightarrow> 'a store option" where
  "destroy_n p 0 s = Some s"
| "destroy_n p (Suc n) s =
     (case destroy_at p s of
        None \<Rightarrow> None
      | Some s1 \<Rightarrow> destroy_n (ptr_add p 1) n s1)"

text \<open>\<^verbatim>\<open>std::uninitialized_value_construct_n(first, n)\<close>.\<close>

fun uninitialized_value_construct_n ::
  "'a elem_type \<Rightarrow> ptr \<Rightarrow> nat \<Rightarrow> 'a store \<Rightarrow> 'a store option" where
  "uninitialized_value_construct_n T p 0 s = Some s"
| "uninitialized_value_construct_n T p (Suc n) s =
     (case construct_at p (value_init T) s of
        None \<Rightarrow> None
      | Some s1 \<Rightarrow> uninitialized_value_construct_n T (ptr_add p 1) n s1)"

text \<open>
  \<^verbatim>\<open>std::uninitialized_copy_n(first, n, d_first)\<close>. When a copy constructor throws, the
  objects constructed so far by this call are destroyed and the exception goes on. The
  loop carries the number \<open>i\<close> of objects already constructed.
\<close>

fun uninitialized_copy_loop ::
  "'a elem_type \<Rightarrow> ptr \<Rightarrow> ptr \<Rightarrow> nat \<Rightarrow> nat \<Rightarrow> 'a store \<Rightarrow> ('a store, 'a store) outcome" where
  "uninitialized_copy_loop T first_i d_first i 0 s = Ok s"
| "uninitialized_copy_loop T first_i d_first i (Suc r) s =
     (case copy_construct T (ptr_add first_i i) (ptr_add d_first i) s of
        Ok s1 \<Rightarrow> uninitialized_copy_loop T first_i d_first (Suc i) r s1
      | Throw e s1 \<Rightarrow>
          (case destroy_n d_first i s1 of
             None \<Rightarrow> Violation
           | Some s2 \<Rightarrow> Throw e s2)
      | Violation \<Rightarrow> Violation)"

definition uninitialized_copy_n ::
  "'a elem_type \<Rightarrow> ptr \<Rightarrow> nat \<Rightarrow> ptr \<Rightarrow> 'a store \<Rightarrow> ('a store, 'a store) outcome" where
  "uninitialized_copy_n T first_i n d_first s = uninitialized_copy_loop T first_i d_first 0 n s"

text \<open>\<^verbatim>\<open>std::uninitialized_move_n(first, n, d_first)\<close>.\<close>

fun uninitialized_move_n ::
  "'a elem_type \<Rightarrow> ptr \<Rightarrow> nat \<Rightarrow> ptr \<Rightarrow> 'a store \<Rightarrow> 'a store option" where
  "uninitialized_move_n T first_i 0 d_first s = Some s"
| "uninitialized_move_n T first_i (Suc n) d_first s =
     (case move_construct T first_i d_first s of
        None \<Rightarrow> None
      | Some s1 \<Rightarrow> uninitialized_move_n T (ptr_add first_i 1) n (ptr_add d_first 1) s1)"

text \<open>\<^verbatim>\<open>std::copy_n(first, n, d_first)\<close>: copy assignment, front to back.\<close>

fun copy_n :: "ptr \<Rightarrow> nat \<Rightarrow> ptr \<Rightarrow> 'a store \<Rightarrow> 'a store option" where
  "copy_n first_i 0 d_first s = Some s"
| "copy_n first_i (Suc n) d_first s =
     (case copy_assign first_i d_first s of
        None \<Rightarrow> None
      | Some s1 \<Rightarrow> copy_n (ptr_add first_i 1) n (ptr_add d_first 1) s1)"

text \<open>
  \<^verbatim>\<open>std::move(first, last, d_first)\<close> and \<^verbatim>\<open>std::move_backward(first, last, d_last)\<close> on
  pointers into one block \<open>b\<close>, given by their offsets \<open>first_i\<close>, \<open>end_i\<close> and \<open>d_first\<close>
  or \<open>d_last\<close>. Both require \<^verbatim>\<open>[first, last)\<close> to be a valid range: \<^verbatim>\<open>last\<close> has to be
  reachable from \<^verbatim>\<open>first\<close>. With \<^verbatim>\<open>last\<close> before \<^verbatim>\<open>first\<close> the behaviour is undefined
  (the library's byte-copying path for trivially copyable types would be given a negative
  length).
\<close>

fun move_forward_loop ::
  "'a elem_type \<Rightarrow> addr option \<Rightarrow> nat \<Rightarrow> nat \<Rightarrow> nat \<Rightarrow> 'a store \<Rightarrow> 'a store option" where
  "move_forward_loop T b first_i 0 d_first s = Some s"
| "move_forward_loop T b first_i (Suc n) d_first s =
     (case move_assign T (b, first_i) (b, d_first) s of
        None \<Rightarrow> None
      | Some s1 \<Rightarrow> move_forward_loop T b (Suc first_i) n (Suc d_first) s1)"

definition std_move ::
  "'a elem_type \<Rightarrow> addr option \<Rightarrow> nat \<Rightarrow> nat \<Rightarrow> nat \<Rightarrow> 'a store \<Rightarrow> 'a store option" where
  "std_move T b first_i end_i d_first s =
     (if first_i \<le> end_i then move_forward_loop T b first_i (end_i - first_i) d_first s else None)"

text \<open>
  The backward loop moves \<open>n\<close> objects: the one before offset \<open>end_i\<close> goes to the slot
  before \<open>d_last\<close>, and so on downwards.
\<close>

fun move_backward_loop ::
  "'a elem_type \<Rightarrow> addr option \<Rightarrow> nat \<Rightarrow> nat \<Rightarrow> nat \<Rightarrow> 'a store \<Rightarrow> 'a store option" where
  "move_backward_loop T b 0 end_i d_last s = Some s"
| "move_backward_loop T b (Suc n) end_i d_last s =
     (if end_i = 0 \<or> d_last = 0 then None
      else (case move_assign T (b, end_i - 1) (b, d_last - 1) s of
              None \<Rightarrow> None
            | Some s1 \<Rightarrow> move_backward_loop T b n (end_i - 1) (d_last - 1) s1))"

definition move_backward ::
  "'a elem_type \<Rightarrow> addr option \<Rightarrow> nat \<Rightarrow> nat \<Rightarrow> nat \<Rightarrow> 'a store \<Rightarrow> 'a store option" where
  "move_backward T b first_i end_i d_last s =
     (if first_i \<le> end_i then move_backward_loop T b (end_i - first_i) end_i d_last s else None)"


section \<open>RawMemory\<close>

text \<open>
  \<^verbatim>\<open>RawMemory<T>\<close> has the members \<^verbatim>\<open>buffer_\<close> and \<^verbatim>\<open>capacity_\<close>. (A name cannot end
  with an underscore here, so the members are written \<open>m_buffer\<close>, \<open>m_capacity\<close>, and
  \<open>m_data\<close>, \<open>m_size\<close> for the vector.)
\<close>

record raw_memory =
  m_buffer :: "addr option"
  m_capacity :: nat

text \<open>The argument of an assignment is either the assigned object itself or another one.\<close>

datatype 'v rhs = Self | Another 'v

text \<open>
  \<^verbatim>\<open>operator new(bytes)\<close>: a new block of \<open>bytes\<close> bytes, which has room for
  \<open>bytes div sizeof(T)\<close> objects (none when \<open>bytes\<close> is zero, and then the address is still
  not null), or \<^verbatim>\<open>std::bad_alloc\<close> when the request cannot be met.
\<close>

definition operator_new ::
  "nat \<Rightarrow> 'a store \<Rightarrow> ('a store \<times> addr option, 'a store) outcome" where
  "operator_new bytes s =
     (if bytes \<le> room s * elem_size s
      then Ok (s\<lparr>blocks := (blocks s)(fresh s \<mapsto> replicate (bytes div elem_size s) Raw),
                 fresh := Suc (fresh s), room := room s - bytes div elem_size s\<rparr>,
               Some (fresh s))
      else Throw BadAlloc s)"

text \<open>
  \<^verbatim>\<open>Allocate(n)\<close>: \<^verbatim>\<open>operator new(n * sizeof(T))\<close>, null for \<open>n = 0\<close>. The product is
  computed in \<^verbatim>\<open>size_t\<close>: when it wraps, the block is smaller than \<open>n\<close> elements.
\<close>

definition Allocate :: "nat \<Rightarrow> 'a store \<Rightarrow> ('a store \<times> addr option, 'a store) outcome" where
  "Allocate n s =
     (if n \<noteq> 0 then operator_new ((n * elem_size s) mod 2 ^ 64) s else Ok (s, None))"

text \<open>
  \<^verbatim>\<open>Deallocate(buf)\<close>: \<^verbatim>\<open>operator delete\<close>. Deleting null does nothing; deleting an
  address that is not (or no longer) allocated is undefined. Objects still constructed in
  the block are counted as lost.
\<close>

definition Deallocate :: "addr option \<Rightarrow> 'a store \<Rightarrow> 'a store option" where
  "Deallocate buf s =
     (case buf of
        None \<Rightarrow> Some s
      | Some a \<Rightarrow>
          (case blocks s a of
             None \<Rightarrow> None
           | Some xs \<Rightarrow>
               Some (s\<lparr>blocks := (blocks s)(a := None), room := room s + length xs,
                       lost := lost s + length (filter (\<lambda>c. c \<noteq> Raw) xs)\<rparr>)))"

definition RawMemory_default :: raw_memory where
  "RawMemory_default = \<lparr>m_buffer = None, m_capacity = 0\<rparr>"

definition RawMemory_sized ::
  "nat \<Rightarrow> 'a store \<Rightarrow> ('a store \<times> raw_memory, 'a store) outcome" where
  "RawMemory_sized capacity s =
     (case Allocate capacity s of
        Ok (s1, buf) \<Rightarrow> Ok (s1, \<lparr>m_buffer = buf, m_capacity = capacity\<rparr>)
      | Throw e s1 \<Rightarrow> Throw e s1
      | Violation \<Rightarrow> Violation)"

text \<open>The move constructor; the result is the new object and what is left of \<open>other\<close>.\<close>

definition RawMemory_move :: "raw_memory \<Rightarrow> raw_memory \<times> raw_memory" where
  "RawMemory_move other =
     (\<lparr>m_buffer = m_buffer other, m_capacity = m_capacity other\<rparr>,
      other\<lparr>m_buffer := None, m_capacity := 0\<rparr>)"

text \<open>\<^verbatim>\<open>Swap(other)\<close>; the result is the pair (this object, \<open>other\<close>) after the call.\<close>

definition RawMemory_Swap :: "raw_memory \<Rightarrow> raw_memory \<Rightarrow> raw_memory \<times> raw_memory" where
  "RawMemory_Swap this other =
     (this\<lparr>m_buffer := m_buffer other, m_capacity := m_capacity other\<rparr>,
      other\<lparr>m_buffer := m_buffer this, m_capacity := m_capacity this\<rparr>)"

text \<open>
  The move assignment: \<^verbatim>\<open>Swap(other); Deallocate(other.buffer_); other.capacity_ = 0;\<close>
  unless \<open>other\<close> is the object itself. The result is the store, this object and
  \<open>other\<close> after the call.
\<close>

definition RawMemory_move_assign ::
  "raw_memory \<Rightarrow> raw_memory rhs \<Rightarrow> 'a store \<Rightarrow> ('a store \<times> raw_memory \<times> raw_memory) option" where
  "RawMemory_move_assign this r s =
     (case r of
        Self \<Rightarrow> Some (s, this, this)
      | Another other \<Rightarrow>
          (case RawMemory_Swap this other of
             (this1, other1) \<Rightarrow>
               (case Deallocate (m_buffer other1) s of
                  None \<Rightarrow> None
                | Some s1 \<Rightarrow> Some (s1, this1, other1\<lparr>m_capacity := 0\<rparr>))))"

text \<open>The destructor: \<^verbatim>\<open>Deallocate(buffer_)\<close>.\<close>

definition RawMemory_dtor :: "raw_memory \<Rightarrow> 'a store \<Rightarrow> 'a store option" where
  "RawMemory_dtor this s = Deallocate (m_buffer this) s"

text \<open>\<^verbatim>\<open>operator+\<close> and \<^verbatim>\<open>operator[]\<close>, with their assertions.\<close>

definition RawMemory_plus :: "raw_memory \<Rightarrow> nat \<Rightarrow> ptr option" where
  "RawMemory_plus this offset =
     (if offset \<le> m_capacity this then Some (m_buffer this, offset) else None)"

definition RawMemory_index :: "raw_memory \<Rightarrow> nat \<Rightarrow> ptr option" where
  "RawMemory_index this index =
     (if index < m_capacity this then Some (m_buffer this, index) else None)"

definition GetAddress :: "raw_memory \<Rightarrow> ptr" where
  "GetAddress this = (m_buffer this, 0)"

section \<open>Vector\<close>

record vector =
  m_data :: raw_memory
  m_size :: nat

definition Size :: "vector \<Rightarrow> nat" where
  "Size this = m_size this"

definition Capacity :: "vector \<Rightarrow> nat" where
  "Capacity this = m_capacity (m_data this)"

definition begin_it :: "vector \<Rightarrow> ptr" where
  "begin_it this = GetAddress (m_data this)"

definition end_it :: "vector \<Rightarrow> ptr" where
  "end_it this = ptr_add (GetAddress (m_data this)) (m_size this)"

text \<open>\<^verbatim>\<open>operator[]\<close> of the vector, with its assertion.\<close>

definition Vector_index :: "vector \<Rightarrow> nat \<Rightarrow> ptr option" where
  "Vector_index this index =
     (if index < m_size this then RawMemory_index (m_data this) index else None)"

definition Vector_default :: vector where
  "Vector_default = \<lparr>m_data = RawMemory_default, m_size = 0\<rparr>"


text \<open>
  The copy constructor. When \<^verbatim>\<open>uninitialized_copy_n\<close> throws, the member \<^verbatim>\<open>data_\<close> is
  already constructed and its destructor gives the block back.
\<close>

definition Vector_copy ::
  "'a elem_type \<Rightarrow> vector \<Rightarrow> 'a store \<Rightarrow> ('a store \<times> vector, 'a store) outcome" where
  "Vector_copy T other s =
     (case RawMemory_sized (m_size other) s of
        Throw e s1 \<Rightarrow> Throw e s1
      | Violation \<Rightarrow> Violation
      | Ok (s1, d) \<Rightarrow>
          (let this = \<lparr>m_data = d, m_size = m_size other\<rparr>
           in case uninitialized_copy_n T (begin_it other) (m_size this) (begin_it this) s1 of
                Ok s2 \<Rightarrow> Ok (s2, this)
              | Throw e s2 \<Rightarrow>
                  (case RawMemory_dtor d s2 of
                     None \<Rightarrow> Violation
                   | Some s3 \<Rightarrow> Throw e s3)
              | Violation \<Rightarrow> Violation))"

text \<open>\<^verbatim>\<open>Swap(other)\<close>; the result is the pair (this object, \<open>other\<close>) after the call.\<close>

definition Vector_Swap :: "vector \<Rightarrow> vector \<Rightarrow> vector \<times> vector" where
  "Vector_Swap this other =
     (case RawMemory_Swap (m_data this) (m_data other) of
        (d, od) \<Rightarrow> (\<lparr>m_data = d, m_size = m_size other\<rparr>, \<lparr>m_data = od, m_size = m_size this\<rparr>))"


text \<open>The destructor, followed by the destructor of the member \<^verbatim>\<open>data_\<close>.\<close>

definition Vector_dtor :: "vector \<Rightarrow> 'a store \<Rightarrow> 'a store option" where
  "Vector_dtor this s =
     (case destroy_n (begin_it this) (m_size this) s of
        None \<Rightarrow> None
      | Some s1 \<Rightarrow> RawMemory_dtor (m_data this) s1)"

definition Vector_copy_assign ::
  "'a elem_type \<Rightarrow> vector rhs \<Rightarrow> 'a store \<times> vector
     \<Rightarrow> ('a store \<times> vector, 'a store \<times> vector) outcome" where
  "Vector_copy_assign T r st =
     (case st of (s, this) \<Rightarrow>
      (case r of
         Self \<Rightarrow> Ok (s, this)
       | Another other \<Rightarrow>
           if m_size other > m_capacity (m_data this) then
             (case Vector_copy T other s of
                Throw e s1 \<Rightarrow> Throw e (s1, this)
              | Violation \<Rightarrow> Violation
              | Ok (s1, copy) \<Rightarrow>
                  (case Vector_Swap this copy of
                     (this1, copy1) \<Rightarrow>
                       (case Vector_dtor copy1 s1 of
                          None \<Rightarrow> Violation
                        | Some s2 \<Rightarrow> Ok (s2, this1))))
           else
             (let min_size = min (m_size this) (m_size other)
              in case copy_n (begin_it other) min_size (begin_it this) s of
                   None \<Rightarrow> Violation
                 | Some s1 \<Rightarrow>
                     if m_size other < m_size this then
                       (case destroy_n (ptr_add (begin_it this) (m_size other))
                               (m_size this - m_size other) s1 of
                          None \<Rightarrow> Violation
                        | Some s2 \<Rightarrow> Ok (s2, this\<lparr>m_size := m_size other\<rparr>))
                     else
                       (case RawMemory_plus (m_data other) (m_size this) of
                          None \<Rightarrow> Violation
                        | Some src \<Rightarrow>
                            (case RawMemory_plus (m_data this) (m_size this) of
                               None \<Rightarrow> Violation
                             | Some dst \<Rightarrow>
                                 (case uninitialized_copy_n T src
                                         (m_size other - m_size this) dst s1 of
                                    Ok s2 \<Rightarrow> Ok (s2, this\<lparr>m_size := m_size other\<rparr>)
                                  | Throw e s2 \<Rightarrow> Throw e (s2, this)
                                  | Violation \<Rightarrow> Violation))))))"



subsection \<open>Growth and resize\<close>

text \<open>
  \<^verbatim>\<open>Reserve(new_capacity)\<close>. The local \<^verbatim>\<open>new_data\<close> is destroyed on every way out: after
  the swap it holds the old block, after an exception the new one.
\<close>

definition Reserve ::
  "'a elem_type \<Rightarrow> nat \<Rightarrow> 'a store \<times> vector
     \<Rightarrow> ('a store \<times> vector, 'a store \<times> vector) outcome" where
  "Reserve T new_capacity st =
     (case st of (s, this) \<Rightarrow>
      if new_capacity \<le> m_capacity (m_data this) then Ok (s, this)
      else
        (case RawMemory_sized new_capacity s of
           Throw e s1 \<Rightarrow> Throw e (s1, this)
         | Violation \<Rightarrow> Violation
         | Ok (s1, new_data) \<Rightarrow>
             (case (if nothrow_move_constructible T \<or> \<not> copy_constructible T
                    then (case uninitialized_move_n T (begin_it this) (m_size this)
                                 (GetAddress new_data) s1 of
                            None \<Rightarrow> Violation
                          | Some s2 \<Rightarrow> Ok s2)
                    else uninitialized_copy_n T (begin_it this) (m_size this)
                           (GetAddress new_data) s1) of
                Throw e s2 \<Rightarrow>
                  (case RawMemory_dtor new_data s2 of
                     None \<Rightarrow> Violation
                   | Some s3 \<Rightarrow> Throw e (s3, this))
              | Violation \<Rightarrow> Violation
              | Ok s2 \<Rightarrow>
                  (case destroy_n (begin_it this) (m_size this) s2 of
                     None \<Rightarrow> Violation
                   | Some s3 \<Rightarrow>
                       (case RawMemory_Swap (m_data this) new_data of
                          (d, new_data1) \<Rightarrow>
                            (case RawMemory_dtor new_data1 s3 of
                               None \<Rightarrow> Violation
                             | Some s4 \<Rightarrow> Ok (s4, this\<lparr>m_data := d\<rparr>)))))))"


subsection \<open>PopBack\<close>

definition PopBack :: "'a store \<times> vector \<Rightarrow> ('a store \<times> vector) option" where
  "PopBack st =
     (case st of (s, this) \<Rightarrow>
      if m_size this > 0 then
        (case destroy_at (m_buffer (m_data this), m_size this - 1) s of
           None \<Rightarrow> None
         | Some s1 \<Rightarrow> Some (s1, this\<lparr>m_size := m_size this - 1\<rparr>))
      else Some (s, this))"

subsection \<open>Emplace, Insert, EmplaceBack, PushBack\<close>

text \<open>
  The constructor arguments \<^verbatim>\<open>args...\<close> of \<^verbatim>\<open>Emplace\<close>: an lvalue of \<^verbatim>\<open>T\<close> (the copy
  constructor builds the new object), an rvalue of \<^verbatim>\<open>T\<close> (the move constructor does), or
  arguments of some other constructor, given by the value they build.
\<close>

datatype 'a args = CopyOf 'a | MoveOf 'a | Build 'a

text \<open>\<^verbatim>\<open>T{std::forward<Args>(args)...}\<close>: the value of the new object.\<close>

definition make_object ::
  "'a elem_type \<Rightarrow> 'a args \<Rightarrow> 'a store \<Rightarrow> ('a store \<times> 'a, 'a store) outcome" where
  "make_object T a s =
     (case a of
        CopyOf v \<Rightarrow>
          if copy_throws T v then Throw CopyFailed s
          else Ok (s\<lparr>copied := copied s + 1\<rparr>, v)
      | MoveOf v \<Rightarrow> Ok (s\<lparr>moved := moved s + 1\<rparr>, v)
      | Build v \<Rightarrow> Ok (s, v))"

text \<open>
  \<^verbatim>\<open>NoRealloc(index, args...)\<close>. \<^verbatim>\<open>data_[size_ - 1]\<close> goes through \<^verbatim>\<open>operator[]\<close> of
  \<^verbatim>\<open>RawMemory\<close> with the wrapped index; \<^verbatim>\<open>end() - 1\<close> needs an element before \<^verbatim>\<open>end()\<close>.
\<close>

definition NoRealloc ::
  "'a elem_type \<Rightarrow> nat \<Rightarrow> 'a args \<Rightarrow> 'a store \<times> vector
     \<Rightarrow> ('a store \<times> vector, 'a store \<times> vector) outcome" where
  "NoRealloc T index a st =
     (case st of (s, this) \<Rightarrow>
      (case make_object T a s of
         Throw e s1 \<Rightarrow> Throw e (s1, this)
       | Violation \<Rightarrow> Violation
       | Ok (s1, temp) \<Rightarrow>
           (case RawMemory_index (m_data this) (size_sub (m_size this) 1) of
              None \<Rightarrow> Violation
            | Some back \<Rightarrow>
                (case move_construct T back (end_it this) s1 of
                   None \<Rightarrow> Violation
                 | Some s2 \<Rightarrow>
                     if m_size this = 0 then Violation
                     else
                       (case move_backward T (m_buffer (m_data this)) index
                               (m_size this - 1) (m_size this) s2 of
                          None \<Rightarrow> Violation
                        | Some s3 \<Rightarrow>
                            (case RawMemory_index (m_data this) index of
                               None \<Rightarrow> Violation
                             | Some p \<Rightarrow>
                                 (case assign_at p temp s3 of
                                    None \<Rightarrow> Violation
                                  | Some s4 \<Rightarrow> Ok (s4, this))))))))"

text \<open>
  \<^verbatim>\<open>Realloc(index, args...)\<close>. The new element is constructed first, then the elements
  from \<open>index\<close> on and the ones before it are relocated, then
  \<^verbatim>\<open>std::destroy_n(begin(), size_ - index)\<close> runs on the old block, and the blocks are
  swapped.
\<close>

definition Realloc ::
  "'a elem_type \<Rightarrow> nat \<Rightarrow> 'a args \<Rightarrow> 'a store \<times> vector
     \<Rightarrow> ('a store \<times> vector, 'a store \<times> vector) outcome" where
  "Realloc T index a st =
     (case st of (s, this) \<Rightarrow>
      (case RawMemory_sized (if m_size this = 0 then 1 else m_size this * 2) s of
         Throw e s1 \<Rightarrow> Throw e (s1, this)
       | Violation \<Rightarrow> Violation
       | Ok (s1, new_data) \<Rightarrow>
           (case RawMemory_plus new_data index of
              None \<Rightarrow> Violation
            | Some p \<Rightarrow>
                (case make_object T a s1 of
                   Throw e s2 \<Rightarrow>
                     (case RawMemory_dtor new_data s2 of
                        None \<Rightarrow> Violation
                      | Some s3 \<Rightarrow> Throw e (s3, this))
                 | Violation \<Rightarrow> Violation
                 | Ok (s2, x) \<Rightarrow>
                     (case construct_at p x s2 of
                        None \<Rightarrow> Violation
                      | Some s3 \<Rightarrow>
                          (case (if nothrow_move_constructible T \<or> \<not> copy_constructible T
                                 then
                                   (case uninitialized_move_n T (ptr_add (begin_it this) index)
                                           (size_sub (m_size this) index)
                                           (ptr_add (GetAddress new_data) (index + 1)) s3 of
                                      None \<Rightarrow> Violation
                                    | Some s4 \<Rightarrow>
                                        (case uninitialized_move_n T (begin_it this) index
                                                (GetAddress new_data) s4 of
                                           None \<Rightarrow> Violation
                                         | Some s5 \<Rightarrow> Ok s5))
                                 else
                                   (case uninitialized_copy_n T (ptr_add (begin_it this) index)
                                           (size_sub (m_size this) index)
                                           (ptr_add (GetAddress new_data) (index + 1)) s3 of
                                      Ok s4 \<Rightarrow>
                                        uninitialized_copy_n T (begin_it this) index
                                          (GetAddress new_data) s4
                                    | Throw e s4 \<Rightarrow> Throw e s4
                                    | Violation \<Rightarrow> Violation)) of
                             Throw e s5 \<Rightarrow>
                               (case RawMemory_dtor new_data s5 of
                                  None \<Rightarrow> Violation
                                | Some s6 \<Rightarrow> Throw e (s6, this))
                           | Violation \<Rightarrow> Violation
                           | Ok s5 \<Rightarrow>
                               (case destroy_n (begin_it this)
                                       (size_sub (m_size this) index) s5 of
                                  None \<Rightarrow> Violation
                                | Some s6 \<Rightarrow>
                                    (case RawMemory_Swap (m_data this) new_data of
                                       (d, new_data1) \<Rightarrow>
                                         (case RawMemory_dtor new_data1 s6 of
                                            None \<Rightarrow> Violation
                                          | Some s7 \<Rightarrow>
                                              Ok (s7, this\<lparr>m_data := d\<rparr>))))))))))"

text \<open>
  \<^verbatim>\<open>Emplace(pos, args...)\<close> with \<open>pos = begin() + index\<close>. It returns the iterator
  \<^verbatim>\<open>data_ + index\<close>.
\<close>

definition Emplace ::
  "'a elem_type \<Rightarrow> nat \<Rightarrow> 'a args \<Rightarrow> 'a store \<times> vector
     \<Rightarrow> ('a store \<times> vector \<times> ptr, 'a store \<times> vector) outcome" where
  "Emplace T index a st =
     (case (if m_size (snd st) < m_capacity (m_data (snd st))
            then NoRealloc T index a st
            else Realloc T index a st) of
        Throw e x \<Rightarrow> Throw e x
      | Violation \<Rightarrow> Violation
      | Ok (s1, this1) \<Rightarrow>
          (let this2 = this1\<lparr>m_size := m_size this1 + 1\<rparr>
           in case RawMemory_plus (m_data this2) index of
                None \<Rightarrow> Violation
              | Some it \<Rightarrow> Ok (s1, this2, it)))"

definition Insert_copy ::
  "'a elem_type \<Rightarrow> nat \<Rightarrow> 'a \<Rightarrow> 'a store \<times> vector
     \<Rightarrow> ('a store \<times> vector \<times> ptr, 'a store \<times> vector) outcome" where
  "Insert_copy T pos v st = Emplace T pos (CopyOf v) st"

definition Insert_move ::
  "'a elem_type \<Rightarrow> nat \<Rightarrow> 'a \<Rightarrow> 'a store \<times> vector
     \<Rightarrow> ('a store \<times> vector \<times> ptr, 'a store \<times> vector) outcome" where
  "Insert_move T pos v st = Emplace T pos (MoveOf v) st"

text \<open>\<^verbatim>\<open>EmplaceBack(args...)\<close> returns the reference \<^verbatim>\<open>data_[size_ - 1]\<close>.\<close>

definition EmplaceBack ::
  "'a elem_type \<Rightarrow> 'a args \<Rightarrow> 'a store \<times> vector
     \<Rightarrow> ('a store \<times> vector \<times> ptr, 'a store \<times> vector) outcome" where
  "EmplaceBack T a st =
     (case Emplace T (m_size (snd st)) a st of
        Throw e x \<Rightarrow> Throw e x
      | Violation \<Rightarrow> Violation
      | Ok (s1, this1, it) \<Rightarrow>
          (case RawMemory_index (m_data this1) (size_sub (m_size this1) 1) of
             None \<Rightarrow> Violation
           | Some r \<Rightarrow> Ok (s1, this1, r)))"

definition PushBack_copy ::
  "'a elem_type \<Rightarrow> 'a \<Rightarrow> 'a store \<times> vector
     \<Rightarrow> ('a store \<times> vector, 'a store \<times> vector) outcome" where
  "PushBack_copy T v st =
     (case EmplaceBack T (CopyOf v) st of
        Throw e x \<Rightarrow> Throw e x
      | Violation \<Rightarrow> Violation
      | Ok (s1, this1, r) \<Rightarrow> Ok (s1, this1))"

definition PushBack_move ::
  "'a elem_type \<Rightarrow> 'a \<Rightarrow> 'a store \<times> vector
     \<Rightarrow> ('a store \<times> vector, 'a store \<times> vector) outcome" where
  "PushBack_move T v st =
     (case EmplaceBack T (MoveOf v) st of
        Throw e x \<Rightarrow> Throw e x
      | Violation \<Rightarrow> Violation
      | Ok (s1, this1, r) \<Rightarrow> Ok (s1, this1))"

subsection \<open>Erase\<close>

text \<open>\<^verbatim>\<open>Erase(pos)\<close> with \<open>pos = begin() + index\<close>.\<close>

definition Erase ::
  "'a elem_type \<Rightarrow> nat \<Rightarrow> 'a store \<times> vector \<Rightarrow> ('a store \<times> vector \<times> ptr) option" where
  "Erase T index st =
     (case st of (s, this) \<Rightarrow>
      if index < m_size this then
        (case RawMemory_plus (m_data this) index of
           None \<Rightarrow> None
         | Some p \<Rightarrow>
             (case std_move T (fst p) (snd p + 1) (m_size this) (snd p) s of
                None \<Rightarrow> None
              | Some s1 \<Rightarrow>
                  (case PopBack (s1, this) of
                     None \<Rightarrow> None
                   | Some (s2, this2) \<Rightarrow>
                       (case RawMemory_plus (m_data this2) index of
                          None \<Rightarrow> None
                        | Some it \<Rightarrow> Some (s2, this2, it)))))
      else
        (case PopBack (s, this) of
           None \<Rightarrow> None
         | Some (s1, this1) \<Rightarrow> Some (s1, this1, end_it this1)))"

subsection \<open>Observing a vector\<close>

text \<open>
  The slots of the vector's block, and the values read through \<^verbatim>\<open>operator[]\<close> at the
  indices below \<^verbatim>\<open>Size()\<close>: \<open>None\<close> where the access is no read of a constructed object.
\<close>

definition elements :: "'a store \<Rightarrow> vector \<Rightarrow> 'a option list" where
  "elements s this =
     map (\<lambda>i. case Vector_index this i of None \<Rightarrow> None | Some p \<Rightarrow> load s p)
       [0..<m_size this]"


subsection \<open>Two element types and a starting store\<close>

text \<open>
  \<^verbatim>\<open>int\<close>: a move leaves the source as it is. \<^verbatim>\<open>std::string\<close>: a move leaves the source
  empty. Neither copy constructor throws here.
\<close>

definition int_elem :: "int elem_type" where
  "int_elem = \<lparr>nothrow_move_constructible = True, copy_constructible = True,
     copy_throws = (\<lambda>v. False), moved_from = (\<lambda>v. v), value_init = 0\<rparr>"

definition string_elem :: "string elem_type" where
  "string_elem = \<lparr>nothrow_move_constructible = True, copy_constructible = True,
     copy_throws = (\<lambda>v. False), moved_from = (\<lambda>v. []), value_init = []\<rparr>"

text \<open>
  A store for \<^verbatim>\<open>int\<close> (four bytes) with nothing allocated and \<open>n\<close> element slots to give.
\<close>

definition new_store :: "nat \<Rightarrow> int store" where
  "new_store n =
     \<lparr>blocks = Map.empty, fresh = 0, room = n, elem_size = 4, copied = 0, moved = 0, lost = 0\<rparr>"

text \<open>
  Pushing the values of a list one at a time, writing down the elements, \<^verbatim>\<open>Size()\<close> and
  \<^verbatim>\<open>Capacity()\<close> after each push that returns, and how the run ends.
\<close>

fun push_each ::
  "'a elem_type \<Rightarrow> 'a list \<Rightarrow> 'a store \<times> vector
     \<Rightarrow> ('a option list \<times> nat \<times> nat) list
        \<times> ('a store \<times> vector, 'a store \<times> vector) outcome" where
  "push_each T [] st = ([], Ok st)"
| "push_each T (x # xs) st =
     (case PushBack_move T x st of
        Ok (s1, this1) \<Rightarrow>
          (case push_each T xs (s1, this1) of
             (log, r) \<Rightarrow> ((elements s1 this1, Size this1, Capacity this1) # log, r))
      | r \<Rightarrow> ([], r))"

subsection \<open>Well-formed vectors\<close>

text \<open>
  The invariant of the data model: the size is at most the capacity, the slots below the
  size hold constructed objects, the slots from the size up to the capacity are
  uninitialised, the buffer is null with capacity zero or an allocated block that
  \<^verbatim>\<open>operator new\<close> has handed out, and the block's \<open>capacity * sizeof(T)\<close> bytes are a
  number of bytes that \<^verbatim>\<open>size_t\<close> can hold (\<^verbatim>\<open>sizeof(T)\<close> is at least one).
\<close>

definition valid :: "'a store \<Rightarrow> vector \<Rightarrow> bool" where
  "valid s this \<longleftrightarrow>
     m_size this \<le> m_capacity (m_data this)
     \<and> list_all (\<lambda>i. load s (m_buffer (m_data this), i) \<noteq> None) [0..<m_size this]
     \<and> list_all (\<lambda>i. slot_at s (m_buffer (m_data this), i) = Some Raw)
           [m_size this..<m_capacity (m_data this)]
     \<and> (case m_buffer (m_data this) of
          None \<Rightarrow> m_capacity (m_data this) = 0
        | Some a \<Rightarrow> a < fresh s \<and> blocks s a \<noteq> None)
     \<and> 0 < elem_size s \<and> m_capacity (m_data this) * elem_size s < 2 ^ 64"

text \<open>What the operations on objects leave alone in a store.\<close>

definition frame :: "'a store \<Rightarrow> addr \<times> nat \<times> nat \<times> addr set \<times> nat" where
  "frame s = (fresh s, room s, lost s, dom (blocks s), elem_size s)"

text \<open>A vector of \<^verbatim>\<open>int\<close> with the elements 1, 2 and capacity three.\<close>

definition two_of_three :: "int store \<times> vector" where
  "two_of_three =
     (\<lparr>blocks = [0 \<mapsto> [Obj 1, Obj 2, Raw]], fresh = 1, room = 10, elem_size = 4,
        copied = 0, moved = 0, lost = 0\<rparr>,
      \<lparr>m_data = \<lparr>m_buffer = Some 0, m_capacity = 3\<rparr>, m_size = 2\<rparr>)"

text \<open>
  A type whose copy constructor throws for the value 2 and whose move constructor is not
  declared non-throwing, and a store with two vectors of it: one element 7 with capacity
  one, and the elements 1, 2 with capacity three.
\<close>

definition picky_elem :: "int elem_type" where
  "picky_elem = \<lparr>nothrow_move_constructible = False, copy_constructible = True,
     copy_throws = (\<lambda>v. v = 2), moved_from = (\<lambda>v. v), value_init = 0\<rparr>"

definition two_vectors :: "int store \<times> vector \<times> vector" where
  "two_vectors =
     (\<lparr>blocks = [0 \<mapsto> [Obj 7], 1 \<mapsto> [Obj 1, Obj 2, Raw]], fresh = 2, room = 10,
        elem_size = 4, copied = 0, moved = 0, lost = 0\<rparr>,
      \<lparr>m_data = \<lparr>m_buffer = Some 0, m_capacity = 1\<rparr>, m_size = 1\<rparr>,
      \<lparr>m_data = \<lparr>m_buffer = Some 1, m_capacity = 3\<rparr>, m_size = 2\<rparr>)"

subsection \<open>Counting what the constructor arguments cost\<close>

text \<open>The copy and move constructions that building the new object from \<open>args\<close> takes.\<close>

fun args_copies :: "'a args \<Rightarrow> nat" where
  "args_copies (CopyOf v) = 1"
| "args_copies (MoveOf v) = 0"
| "args_copies (Build v) = 0"

fun args_moves :: "'a args \<Rightarrow> nat" where
  "args_moves (CopyOf v) = 0"
| "args_moves (MoveOf v) = 1"
| "args_moves (Build v) = 0"

subsection \<open>Sequences of calls on several vectors\<close>









subsection \<open>The members size_ and capacity_ along a call\<close>






















section \<open>Properties\<close>

lemmas object_defs = slot_at_def put_slot_def construct_at_def load_def assign_at_def
  destroy_at_def copy_construct_def move_construct_def copy_assign_def move_assign_def
  ptr_add_def size_sub_def

lemmas raw_memory_defs = operator_new_def Allocate_def Deallocate_def RawMemory_sized_def
  RawMemory_Swap_def RawMemory_dtor_def RawMemory_plus_def RawMemory_index_def GetAddress_def
  RawMemory_default_def RawMemory_move_assign_def

lemmas vector_defs = begin_it_def end_it_def Vector_default_def Vector_index_def Size_def
  Capacity_def make_object_def NoRealloc_def Realloc_def Emplace_def EmplaceBack_def
  PushBack_move_def PushBack_copy_def Insert_copy_def Insert_move_def
  uninitialized_copy_n_def move_backward_def std_move_def elements_def Reserve_def
  PopBack_def Erase_def

text \<open>Unfolding the loops and lists at numerals, for runs from concrete states.\<close>

lemma replicate_numeral: "replicate (numeral k) x = x # replicate (pred_numeral k) x"
  by (simp add: numeral_eq_Suc)

lemma list_update_Cons_numeral: "(x # xs)[numeral k := y] = x # xs[pred_numeral k := y]"
  by (simp add: numeral_eq_Suc)

lemma destroy_n_numeral:
  "destroy_n p (numeral k) s =
     (case destroy_at p s of None \<Rightarrow> None | Some s1 \<Rightarrow> destroy_n (ptr_add p 1) (pred_numeral k) s1)"
  by (simp add: numeral_eq_Suc)

lemma uninitialized_move_n_numeral:
  "uninitialized_move_n T p (numeral k) q s =
     (case move_construct T p q s of
        None \<Rightarrow> None
      | Some s1 \<Rightarrow> uninitialized_move_n T (ptr_add p 1) (pred_numeral k) (ptr_add q 1) s1)"
  by (simp add: numeral_eq_Suc)

lemma uninitialized_copy_loop_numeral:
  "uninitialized_copy_loop T p q i (numeral k) s =
     (case copy_construct T (ptr_add p i) (ptr_add q i) s of
        Ok s1 \<Rightarrow> uninitialized_copy_loop T p q (Suc i) (pred_numeral k) s1
      | Throw e s1 \<Rightarrow>
          (case destroy_n q i s1 of
             None \<Rightarrow> Violation
           | Some s2 \<Rightarrow> Throw e s2)
      | Violation \<Rightarrow> Violation)"
  by (simp add: numeral_eq_Suc)

lemma uninitialized_value_construct_n_numeral:
  "uninitialized_value_construct_n T p (numeral k) s =
     (case construct_at p (value_init T) s of
        None \<Rightarrow> None
      | Some s1 \<Rightarrow> uninitialized_value_construct_n T (ptr_add p 1) (pred_numeral k) s1)"
  by (simp add: numeral_eq_Suc)

lemma move_forward_loop_numeral:
  "move_forward_loop T b i (numeral k) d s =
     (case move_assign T (b, i) (b, d) s of
        None \<Rightarrow> None
      | Some s1 \<Rightarrow> move_forward_loop T b (Suc i) (pred_numeral k) (Suc d) s1)"
  by (simp add: numeral_eq_Suc)

lemma move_backward_loop_numeral:
  "move_backward_loop T b (numeral k) e d s =
     (if e = 0 \<or> d = 0 then None
      else (case move_assign T (b, e - 1) (b, d - 1) s of
              None \<Rightarrow> None
            | Some s1 \<Rightarrow> move_backward_loop T b (pred_numeral k) (e - 1) (d - 1) s1))"
  by (simp add: numeral_eq_Suc)

lemmas run_simps = replicate_numeral list_update_Cons_numeral destroy_n_numeral
  uninitialized_move_n_numeral uninitialized_copy_loop_numeral
  uninitialized_value_construct_n_numeral move_forward_loop_numeral
  move_backward_loop_numeral upt_conv_Cons

subsection \<open>Runs from concrete states\<close>

text \<open>
  C1. Pushing 1, 2, 3, 4, 5 into an empty vector of \<^verbatim>\<open>int\<close>: the first three pushes
  reallocate and give sizes 1, 2, 3 with capacities 1, 2, 4 and the values in order. The
  fourth push finds \<open>size_ < capacity\<close> and goes through \<^verbatim>\<open>NoRealloc\<close> with
  \<open>index = size_\<close>, where \<^verbatim>\<open>std::move_backward(begin() + index, end() - 1, end())\<close> is
  called with its first iterator behind its second: the run ends in undefined behaviour
  instead of a vector of size 4 and capacity 4.
\<close>

theorem push_1_to_5_stops_at_fourth:
  "push_each int_elem [1, 2, 3, 4, 5] (new_store 16, Vector_default) =
     ([([Some 1], 1, 1), ([Some 1, Some 2], 2, 2), ([Some 1, Some 2, Some 3], 3, 4)],
      Violation)"
  by (simp add: object_defs raw_memory_defs vector_defs new_store_def int_elem_def
      run_simps)

text \<open>
  C2. \<^verbatim>\<open>Realloc\<close> destroys \<open>size_ - index\<close> objects of the old block, not \<open>size_\<close>. A vector
  of strings with one element and capacity one, to which a second string is appended
  (\<open>index = 1\<close>): nothing is destroyed, the old block \<open>0\<close> is released while its object is
  still constructed, and the counter of lost objects goes from 0 to 1.
\<close>

theorem Realloc_releases_block_with_live_object:
  "(case Realloc string_elem 1 (MoveOf ''cd'')
           (\<lparr>blocks = [0 \<mapsto> [Obj ''ab'']], fresh = 1, room = 7, elem_size = 32,
              copied = 0, moved = 0, lost = 0\<rparr>,
            \<lparr>m_data = \<lparr>m_buffer = Some 0, m_capacity = 1\<rparr>, m_size = 1\<rparr>) of
      Ok (s1, this1) \<Rightarrow>
        lost s1 = 1 \<and> blocks s1 0 = None \<and> blocks s1 1 = Some [Obj ''ab'', Obj ''cd'']
    | Throw e x \<Rightarrow> False
    | Violation \<Rightarrow> False)"
  by (simp add: object_defs raw_memory_defs vector_defs string_elem_def run_simps)

text \<open>
  C3. The move assignment of \<^verbatim>\<open>RawMemory\<close> swaps, releases the block the source now
  holds and sets the source's capacity to zero, but leaves the source's \<^verbatim>\<open>buffer_\<close>
  pointing at the released block. With two objects of capacity one, \<open>a\<close> at address 0 and
  \<open>b\<close> at address 1, after \<^verbatim>\<open>a = std::move(b)\<close> the source \<open>b\<close> has capacity 0 and the
  non-null address 0, block 0 is no longer allocated, and the destructor of \<open>b\<close> releases
  it a second time.
\<close>

theorem RawMemory_move_assign_leaves_source_dangling:
  "(case RawMemory_sized 1 (new_store 8 :: int store) of
      Ok (s1, a) \<Rightarrow>
        (case RawMemory_sized 1 s1 of
           Ok (s2, b) \<Rightarrow>
             (case RawMemory_move_assign a (Another b) s2 of
                Some (s3, a1, b1) \<Rightarrow>
                  m_buffer a = Some 0 \<and> m_buffer b = Some 1
                  \<and> m_buffer b1 = Some 0 \<and> m_capacity b1 = 0
                  \<and> blocks s3 0 = None \<and> RawMemory_dtor b1 s3 = None
              | None \<Rightarrow> False)
         | Throw e x \<Rightarrow> False
         | Violation \<Rightarrow> False)
    | Throw e x \<Rightarrow> False
    | Violation \<Rightarrow> False)"
  by (simp add: object_defs raw_memory_defs new_store_def)

text \<open>
  C4. An empty vector of \<^verbatim>\<open>int\<close> with reserved capacity one: \<^verbatim>\<open>Insert(begin(), 7)\<close> finds
  \<open>size_ < capacity\<close> and goes through \<^verbatim>\<open>NoRealloc\<close>, which reads \<^verbatim>\<open>data_[size_ - 1]\<close>,
  that is index \<open>2 ^ 64 - 1\<close>, and fails the assertion \<open>index < capacity_\<close> of \<^verbatim>\<open>RawMemory\<close>.
\<close>

theorem Insert_into_reserved_empty_vector:
  "(case Reserve int_elem 1 (new_store 8, Vector_default) of
      Ok (s1, this1) \<Rightarrow>
        Size this1 = 0 \<and> Capacity this1 = 1
        \<and> Insert_copy int_elem 0 7 (s1, this1) = Violation
    | Throw e x \<Rightarrow> False
    | Violation \<Rightarrow> False)"
  by (simp add: object_defs raw_memory_defs vector_defs new_store_def int_elem_def)

subsection \<open>PopBack and Erase on an empty vector\<close>

text \<open>
  C10. On an empty vector \<^verbatim>\<open>PopBack()\<close> changes neither the vector nor the store, and
  \<^verbatim>\<open>Erase(end())\<close> (\<open>end() = begin() + 0\<close>) does the same and returns \<^verbatim>\<open>end()\<close>.
\<close>

theorem PopBack_Erase_on_empty:
  "Size this = 0 \<Longrightarrow>
     PopBack (s, this) = Some (s, this) \<and> Erase T 0 (s, this) = Some (s, this, end_it this)"
  by (simp add: PopBack_def Erase_def Size_def)

theorem PopBack_Erase_on_empty_witness:
  "Size Vector_default = 0
   \<and> PopBack (new_store 4 :: int store, Vector_default) = Some (new_store 4, Vector_default)
   \<and> Erase int_elem 0 (new_store 4, Vector_default)
       = Some (new_store 4, Vector_default, end_it Vector_default)"
  using PopBack_Erase_on_empty [of Vector_default "new_store 4 :: int store" int_elem]
  by (simp add: Size_def Vector_default_def)

subsection \<open>Slots, objects and blocks\<close>

lemma slot_at_put_slot:
  "slot_at (put_slot s p c) q = (if q = p \<and> slot_at s p \<noteq> None then Some c else slot_at s q)"
  by (auto simp: slot_at_def put_slot_def prod_eq_iff split: option.splits)

lemma frame_put_slot [simp]: "frame (put_slot s p c) = frame s"
  by (auto simp: frame_def put_slot_def split: option.splits)

lemma copied_put_slot [simp]: "copied (put_slot s p c) = copied s"
  by (auto simp: put_slot_def split: option.splits)

lemma moved_put_slot [simp]: "moved (put_slot s p c) = moved s"
  by (auto simp: put_slot_def split: option.splits)

lemma slot_at_moved_update [simp]: "slot_at (s\<lparr>moved := m\<rparr>) q = slot_at s q"
  by (auto simp: slot_at_def split: option.splits)

lemma slot_at_copied_update [simp]: "slot_at (s\<lparr>copied := m\<rparr>) q = slot_at s q"
  by (auto simp: slot_at_def split: option.splits)

lemma slot_at_lost_update [simp]: "slot_at (s\<lparr>lost := m\<rparr>) q = slot_at s q"
  by (auto simp: slot_at_def split: option.splits)

lemma frame_moved_update [simp]: "frame (s\<lparr>moved := m\<rparr>) = frame s"
  by (simp add: frame_def)

lemma frame_copied_update [simp]: "frame (s\<lparr>copied := m\<rparr>) = frame s"
  by (simp add: frame_def)

lemma load_iff: "load s p = Some v \<longleftrightarrow> slot_at s p = Some (Obj v)"
  by (auto simp: load_def split: option.splits slot.splits)

lemma destroy_at_obj: "slot_at s p = Some (Obj w) \<Longrightarrow> destroy_at p s = Some (put_slot s p Raw)"
  by (simp add: destroy_at_def)

lemma destroy_n_ok:
  "\<forall>k<n. \<exists>w. slot_at s (a, i + k) = Some (Obj w) \<Longrightarrow>
   \<exists>s'. destroy_n (a, i) n s = Some s'
      \<and> (\<forall>q. slot_at s' q = (if fst q = a \<and> i \<le> snd q \<and> snd q < i + n then Some Raw else slot_at s q))
      \<and> frame s' = frame s \<and> copied s' = copied s \<and> moved s' = moved s"
proof (induction n arbitrary: s i)
  case 0
  then show ?case by auto
next
  case (Suc n)
  from Suc.prems have "\<exists>w. slot_at s (a, i + 0) = Some (Obj w)" by blast
  then obtain w where w: "slot_at s (a, i) = Some (Obj w)" by auto
  let ?s1 = "put_slot s (a, i) Raw"
  have "\<forall>k<n. \<exists>w. slot_at ?s1 (a, Suc i + k) = Some (Obj w)"
  proof (intro allI impI)
    fix k assume "k < n"
    then have "\<exists>w. slot_at s (a, i + Suc k) = Some (Obj w)" using Suc.prems by blast
    then show "\<exists>w. slot_at ?s1 (a, Suc i + k) = Some (Obj w)" by (simp add: slot_at_put_slot)
  qed
  from Suc.IH [OF this] obtain s' where s': "destroy_n (a, Suc i) n ?s1 = Some s'"
    "\<forall>q. slot_at s' q = (if fst q = a \<and> Suc i \<le> snd q \<and> snd q < Suc i + n then Some Raw else slot_at ?s1 q)"
    "frame s' = frame ?s1" "copied s' = copied ?s1" "moved s' = moved ?s1" by blast
  have "destroy_n (a, i) (Suc n) s = Some s'"
    using s'(1) w by (simp add: destroy_at_obj ptr_add_def)
  moreover have "\<forall>q. slot_at s' q = (if fst q = a \<and> i \<le> snd q \<and> snd q < i + Suc n then Some Raw else slot_at s q)"
    using s'(2) w by (auto simp: slot_at_put_slot prod_eq_iff)
  ultimately show ?case using s'(3-5) by simp
qed




lemma copy_construct_ok:
  "slot_at s src = Some (Obj v) \<Longrightarrow> \<not> copy_throws T v \<Longrightarrow> slot_at s dst = Some Raw \<Longrightarrow>
   copy_construct T src dst s = Ok ((put_slot s dst (Obj v))\<lparr>copied := copied s + 1\<rparr>)"
  by (simp add: copy_construct_def load_def construct_at_def)

lemma copy_construct_throw:
  "slot_at s src = Some (Obj v) \<Longrightarrow> copy_throws T v \<Longrightarrow>
   copy_construct T src dst s = Throw CopyFailed s"
  by (simp add: copy_construct_def load_def)

lemma uninitialized_copy_loop_cases:
  assumes "\<forall>k. i \<le> k \<and> k < i + r \<longrightarrow> (\<exists>w. slot_at s (a, i0 + k) = Some (Obj w))"
    and "\<forall>k. i \<le> k \<and> k < i + r \<longrightarrow> slot_at s (b, j0 + k) = Some Raw"
    and "\<forall>k<i. \<exists>w. slot_at s (b, j0 + k) = Some (Obj w)"
    and "a \<noteq> b"
  shows "(\<exists>s'. uninitialized_copy_loop T (a, i0) (b, j0) i r s = Ok s'
            \<and> (\<forall>q. slot_at s' q =
                  (if fst q = b \<and> j0 + i \<le> snd q \<and> snd q < j0 + i + r
                   then slot_at s (a, i0 + (snd q - j0)) else slot_at s q))
            \<and> frame s' = frame s \<and> moved s' = moved s \<and> copied s' = copied s + r)
       \<or> (\<exists>s'. uninitialized_copy_loop T (a, i0) (b, j0) i r s = Throw CopyFailed s'
            \<and> (\<exists>k w. i \<le> k \<and> k < i + r \<and> slot_at s (a, i0 + k) = Some (Obj w) \<and> copy_throws T w)
            \<and> (\<forall>q. slot_at s' q =
                  (if fst q = b \<and> j0 \<le> snd q \<and> snd q < j0 + i then Some Raw else slot_at s q))
            \<and> frame s' = frame s \<and> moved s' = moved s)"
  using assms
proof (induction r arbitrary: s i)
  case 0
  then show ?case by auto
next
  case (Suc r)
  from Suc.prems(1) obtain v where v: "slot_at s (a, i0 + i) = Some (Obj v)" by force
  from Suc.prems(2) have raw: "slot_at s (b, j0 + i) = Some Raw" by force
  show ?case
  proof (cases "copy_throws T v")
    case True
    from destroy_n_ok [of i s b j0] Suc.prems(3) obtain s' where
      s': "destroy_n (b, j0) i s = Some s'"
      "\<forall>q. slot_at s' q = (if fst q = b \<and> j0 \<le> snd q \<and> snd q < j0 + i then Some Raw else slot_at s q)"
      "frame s' = frame s" "moved s' = moved s" by blast
    have "uninitialized_copy_loop T (a, i0) (b, j0) i (Suc r) s = Throw CopyFailed s'"
      using v True s'(1) by (simp add: copy_construct_throw ptr_add_def)
    moreover have "\<exists>k w. i \<le> k \<and> k < i + Suc r \<and> slot_at s (a, i0 + k) = Some (Obj w) \<and> copy_throws T w"
      using v True by (intro exI [of _ i] exI [of _ v]) simp
    ultimately show ?thesis using s'(2-4) by blast
  next
    case False
    let ?s0 = "put_slot s (b, j0 + i) (Obj v)"
    let ?s1 = "?s0\<lparr>copied := copied s + 1\<rparr>"
    have s0: "slot_at ?s0 q = (if q = (b, j0 + i) then Some (Obj v) else slot_at s q)" for q
      using raw by (simp add: slot_at_put_slot)
    have step: "uninitialized_copy_loop T (a, i0) (b, j0) i (Suc r) s
        = uninitialized_copy_loop T (a, i0) (b, j0) (Suc i) r ?s1"
      using v raw False by (simp add: copy_construct_ok ptr_add_def)
    have p1: "\<forall>k. Suc i \<le> k \<and> k < Suc i + r \<longrightarrow> (\<exists>w. slot_at ?s1 (a, i0 + k) = Some (Obj w))"
      using Suc.prems(1) \<open>a \<noteq> b\<close> by (simp add: s0)
    have p2: "\<forall>k. Suc i \<le> k \<and> k < Suc i + r \<longrightarrow> slot_at ?s1 (b, j0 + k) = Some Raw"
      using Suc.prems(2) by (simp add: s0)
    have p3: "\<forall>k<Suc i. \<exists>w. slot_at ?s1 (b, j0 + k) = Some (Obj w)"
      using Suc.prems(3) by (simp add: s0 less_Suc_eq)
    from Suc.IH [OF p1 p2 p3 \<open>a \<noteq> b\<close>]
    show ?thesis
    proof (elim disjE exE conjE)
      fix s'
      assume a1: "uninitialized_copy_loop T (a, i0) (b, j0) (Suc i) r ?s1 = Ok s'"
        and a2: "\<forall>q. slot_at s' q =
                  (if fst q = b \<and> j0 + Suc i \<le> snd q \<and> snd q < j0 + Suc i + r
                   then slot_at ?s1 (a, i0 + (snd q - j0)) else slot_at ?s1 q)"
        and a3: "frame s' = frame ?s1" "moved s' = moved ?s1" "copied s' = copied ?s1 + r"
      have "slot_at s' q =
                  (if fst q = b \<and> j0 + i \<le> snd q \<and> snd q < j0 + i + Suc r
                   then slot_at s (a, i0 + (snd q - j0)) else slot_at s q)" for q
      proof (cases q)
        case (Pair c k)
        show ?thesis using a2 [rule_format, of q] v \<open>a \<noteq> b\<close> unfolding Pair
          by (auto simp: s0)
      qed
      then show ?thesis using a1 a3 step by simp
    next
      fix s' k w
      assume a1: "uninitialized_copy_loop T (a, i0) (b, j0) (Suc i) r ?s1 = Throw CopyFailed s'"
        and a2: "\<forall>q. slot_at s' q =
                  (if fst q = b \<and> j0 \<le> snd q \<and> snd q < j0 + Suc i then Some Raw else slot_at ?s1 q)"
        and a3: "frame s' = frame ?s1" "moved s' = moved ?s1"
        and a4: "Suc i \<le> k" "k < Suc i + r" "slot_at ?s1 (a, i0 + k) = Some (Obj w)" "copy_throws T w"
      have "slot_at s' q =
                  (if fst q = b \<and> j0 \<le> snd q \<and> snd q < j0 + i then Some Raw else slot_at s q)" for q
      proof (cases q)
        case (Pair c k)
        show ?thesis using a2 [rule_format, of q] raw unfolding Pair
          by (auto simp: s0)
      qed
      moreover have "\<exists>k w. i \<le> k \<and> k < i + Suc r \<and> slot_at s (a, i0 + k) = Some (Obj w) \<and> copy_throws T w"
        using a4 \<open>a \<noteq> b\<close> by (intro exI [of _ k] exI [of _ w]) (simp add: s0)
      ultimately show ?thesis using a1 a3 step by simp
    qed
  qed
qed


lemma frame_eqD:
  assumes "frame s' = frame s"
  shows "fresh s' = fresh s" and "room s' = room s" and "lost s' = lost s"
    and "(blocks s' x = None) = (blocks s x = None)" and "elem_size s' = elem_size s"
proof -
  from assms have "dom (blocks s') = dom (blocks s)" by (simp add: frame_def)
  then show "(blocks s' x = None) = (blocks s x = None)" by (metis domIff)
qed (use assms in \<open>simp_all add: frame_def\<close>)

lemma Allocate_ok:
  assumes "n \<noteq> 0" and "n \<le> room s" and "0 < elem_size s" and "n * elem_size s < 2 ^ 64"
  shows "\<exists>s'. Allocate n s = Ok (s', Some (fresh s))
      \<and> (\<forall>q. slot_at s' q =
            (if fst q = Some (fresh s) then (if snd q < n then Some Raw else None) else slot_at s q))
      \<and> fresh s' = Suc (fresh s) \<and> blocks s' (fresh s) \<noteq> None
      \<and> (\<forall>x. x \<noteq> fresh s \<longrightarrow> blocks s' x = blocks s x)
      \<and> copied s' = copied s \<and> moved s' = moved s \<and> elem_size s' = elem_size s"
proof -
  have "(n * elem_size s) mod 2 ^ 64 = n * elem_size s" using assms(4) by simp
  moreover have "n * elem_size s div elem_size s = n" using assms(3) by simp
  moreover have "n * elem_size s \<le> room s * elem_size s" using assms(2) by simp
  ultimately show ?thesis using assms(1)
    by (auto simp: Allocate_def operator_new_def slot_at_def split: option.splits)
qed

lemma Deallocate_ok:
  "blocks s a \<noteq> None \<Longrightarrow>
   \<exists>s'. Deallocate (Some a) s = Some s'
      \<and> (\<forall>q. slot_at s' q = (if fst q = Some a then None else slot_at s q))
      \<and> fresh s' = fresh s \<and> (\<forall>x. x \<noteq> a \<longrightarrow> blocks s' x = blocks s x)
      \<and> copied s' = copied s \<and> moved s' = moved s \<and> elem_size s' = elem_size s"
  by (auto simp: Deallocate_def slot_at_def split: option.splits)

lemma valid_iff:
  "valid s this \<longleftrightarrow>
     m_size this \<le> m_capacity (m_data this)
     \<and> (\<forall>k<m_size this. \<exists>w. slot_at s (m_buffer (m_data this), k) = Some (Obj w))
     \<and> (\<forall>k. m_size this \<le> k \<and> k < m_capacity (m_data this)
            \<longrightarrow> slot_at s (m_buffer (m_data this), k) = Some Raw)
     \<and> (case m_buffer (m_data this) of
          None \<Rightarrow> m_capacity (m_data this) = 0
        | Some a \<Rightarrow> a < fresh s \<and> blocks s a \<noteq> None)
     \<and> 0 < elem_size s \<and> m_capacity (m_data this) * elem_size s < 2 ^ 64"
  by (auto simp: valid_def list_all_iff load_iff)

lemma validD:
  assumes "valid s this"
  shows "m_size this \<le> m_capacity (m_data this)"
    and "\<And>k. k < m_size this \<Longrightarrow> \<exists>w. slot_at s (m_buffer (m_data this), k) = Some (Obj w)"
    and "\<And>k. m_size this \<le> k \<Longrightarrow> k < m_capacity (m_data this)
           \<Longrightarrow> slot_at s (m_buffer (m_data this), k) = Some Raw"
    and "\<And>a. m_buffer (m_data this) = Some a \<Longrightarrow> a < fresh s \<and> blocks s a \<noteq> None"
    and "m_buffer (m_data this) = None \<Longrightarrow> m_capacity (m_data this) = 0"
    and "0 < elem_size s" and "m_capacity (m_data this) * elem_size s < 2 ^ 64"
  using assms unfolding valid_iff by simp_all

lemma elements_eq:
  "m_size this \<le> m_capacity (m_data this) \<Longrightarrow>
   elements s this = map (\<lambda>i. load s (m_buffer (m_data this), i)) [0..<m_size this]"
  by (simp add: elements_def Vector_index_def RawMemory_index_def)

subsection \<open>Reserve\<close>



lemma two_of_three_valid: "valid (fst two_of_three) (snd two_of_three)"
  by (simp add: two_of_three_def valid_def load_def slot_at_def upt_conv_Cons)

lemma two_of_three_elements:
  "elements (fst two_of_three) (snd two_of_three) = [Some 1, Some 2]"
  by (simp add: two_of_three_def elements_def Vector_index_def RawMemory_index_def load_def
      slot_at_def upt_conv_Cons)




subsection \<open>Erase\<close>

lemma move_assign_ok:
  "slot_at s src = Some (Obj v) \<Longrightarrow> slot_at s dst = Some (Obj w) \<Longrightarrow>
   move_assign T src dst s
     = Some (put_slot (put_slot s dst (Obj v)) src (Obj (moved_from T v)))"
  by (simp add: move_assign_def load_def assign_at_def)

lemma move_forward_loop_ok:
  assumes "\<forall>k\<le>n. \<exists>w. slot_at s (b, d + k) = Some (Obj w)"
  shows "\<exists>s'. move_forward_loop T b (Suc d) n d s = Some s'
      \<and> (\<forall>q. slot_at s' q =
            (if fst q = b \<and> d \<le> snd q \<and> snd q < d + n then slot_at s (b, Suc (snd q))
             else if fst q = b \<and> snd q = d + n \<and> 0 < n
                  then map_option (map_slot (moved_from T)) (slot_at s q)
                  else slot_at s q))
      \<and> frame s' = frame s \<and> copied s' = copied s \<and> moved s' = moved s"
  using assms
proof (induction n arbitrary: s d)
  case 0
  then show ?case by auto
next
  case (Suc n)
  from Suc.prems have "\<exists>w. slot_at s (b, d + 0) = Some (Obj w)" by blast
  then obtain w where w: "slot_at s (b, d) = Some (Obj w)" by auto
  from Suc.prems have "\<exists>w. slot_at s (b, d + 1) = Some (Obj w)" by (metis le_add1 plus_1_eq_Suc)
  then obtain v where v: "slot_at s (b, Suc d) = Some (Obj v)" by auto
  let ?s1 = "put_slot (put_slot s (b, d) (Obj v)) (b, Suc d) (Obj (moved_from T v))"
  have s1: "slot_at ?s1 q = (if q = (b, Suc d) then Some (Obj (moved_from T v))
                             else if q = (b, d) then Some (Obj v) else slot_at s q)" for q
    using v w by (simp add: slot_at_put_slot)
  have p: "\<forall>k\<le>n. \<exists>w. slot_at ?s1 (b, Suc d + k) = Some (Obj w)"
  proof (intro allI impI)
    fix k assume "k \<le> n"
    then have "\<exists>w. slot_at s (b, d + Suc k) = Some (Obj w)" using Suc.prems by (metis Suc_le_mono)
    then show "\<exists>w. slot_at ?s1 (b, Suc d + k) = Some (Obj w)" by (simp add: s1)
  qed
  from Suc.IH [OF p] obtain s' where
    s': "move_forward_loop T b (Suc (Suc d)) n (Suc d) ?s1 = Some s'"
    "\<forall>q. slot_at s' q =
            (if fst q = b \<and> Suc d \<le> snd q \<and> snd q < Suc d + n then slot_at ?s1 (b, Suc (snd q))
             else if fst q = b \<and> snd q = Suc d + n \<and> 0 < n
                  then map_option (map_slot (moved_from T)) (slot_at ?s1 q)
                  else slot_at ?s1 q)"
    "frame s' = frame ?s1" "copied s' = copied ?s1" "moved s' = moved ?s1" by blast
  have "move_forward_loop T b (Suc d) (Suc n) d s = Some s'"
    using s'(1) v w by (simp add: move_assign_ok)
  moreover have "slot_at s' q =
            (if fst q = b \<and> d \<le> snd q \<and> snd q < d + Suc n then slot_at s (b, Suc (snd q))
             else if fst q = b \<and> snd q = d + Suc n \<and> 0 < Suc n
                  then map_option (map_slot (moved_from T)) (slot_at s q)
                  else slot_at s q)" for q
  proof (cases q)
    case (Pair c k)
    show ?thesis
      using s'(2) [rule_format, of q] v w unfolding Pair
      by (auto simp: s1)
  qed
  ultimately show ?case using s'(3-5) by simp
qed


lemma block_frame:
  assumes "frame s' = frame s"
    and "case a of None \<Rightarrow> c = (0::nat) | Some x \<Rightarrow> x < fresh s \<and> blocks s x \<noteq> None"
  shows "case a of None \<Rightarrow> c = 0 | Some x \<Rightarrow> x < fresh s' \<and> blocks s' x \<noteq> None"
proof (cases a)
  case None
  with assms(2) show ?thesis by simp
next
  case (Some x)
  with assms(2) have "x < fresh s" "blocks s x \<noteq> None" by simp_all
  then have "x < fresh s'" "blocks s' x \<noteq> None"
    using frame_eqD(1) [OF assms(1)] frame_eqD(4) [OF assms(1), of x] by simp_all
  with Some show ?thesis by simp
qed

lemma PopBack_ok:
  assumes "valid s this" and "0 < m_size this"
  shows "PopBack (s, this)
           = Some (put_slot s (m_buffer (m_data this), m_size this - 1) Raw,
                   this\<lparr>m_size := m_size this - 1\<rparr>)"
proof -
  from validD(2) [OF assms(1), of "m_size this - 1"] assms(2)
  obtain w where "slot_at s (m_buffer (m_data this), m_size this - 1) = Some (Obj w)" by auto
  then show ?thesis using assms(2) by (simp add: PopBack_def destroy_at_obj)
qed

lemma valid_shrink:
  assumes "m_size this \<le> m_capacity (m_data this)"
    and "\<And>k. k < m_size this - 1 \<Longrightarrow> \<exists>w. slot_at s' (m_buffer (m_data this), k) = Some (Obj w)"
    and "\<And>k. m_size this - 1 \<le> k \<Longrightarrow> k < m_capacity (m_data this)
           \<Longrightarrow> slot_at s' (m_buffer (m_data this), k) = Some Raw"
    and "case m_buffer (m_data this) of
           None \<Rightarrow> m_capacity (m_data this) = 0
         | Some a \<Rightarrow> a < fresh s' \<and> blocks s' a \<noteq> None"
    and "0 < elem_size s'" and "m_capacity (m_data this) * elem_size s' < 2 ^ 64"
  shows "valid s' (this\<lparr>m_size := m_size this - 1\<rparr>)"
  unfolding valid_iff using assms by (auto split: option.splits)

text \<open>
  C6. On a well-formed vector and for \<open>i\<close> below the size, \<^verbatim>\<open>Erase(begin() + i)\<close> returns
  the iterator \<^verbatim>\<open>begin() + i\<close>; the size goes down by one, the elements are the old ones
  without the one at index \<open>i\<close>, in the old order, the slot that was last is destroyed,
  and the vector is well-formed again. On a non-empty vector \<^verbatim>\<open>Erase(end())\<close> does what
  \<^verbatim>\<open>PopBack()\<close> does, which removes the last element, and returns the new \<^verbatim>\<open>end()\<close>.
\<close>

theorem Erase_removes_one:
  assumes "valid s this"
  shows "(i < Size this \<longrightarrow>
           (\<exists>s'. Erase T i (s, this)
                    = Some (s', this\<lparr>m_size := Size this - 1\<rparr>, ptr_add (begin_it this) i)
              \<and> elements s' (this\<lparr>m_size := Size this - 1\<rparr>)
                  = take i (elements s this) @ drop (Suc i) (elements s this)
              \<and> slot_at s' (ptr_add (begin_it this) (Size this - 1)) = Some Raw
              \<and> valid s' (this\<lparr>m_size := Size this - 1\<rparr>)))
    \<and> (0 < Size this \<longrightarrow>
           (\<exists>s'. PopBack (s, this) = Some (s', this\<lparr>m_size := Size this - 1\<rparr>)
              \<and> Erase T (Size this) (s, this)
                  = Some (s', this\<lparr>m_size := Size this - 1\<rparr>,
                          end_it (this\<lparr>m_size := Size this - 1\<rparr>))
              \<and> elements s' (this\<lparr>m_size := Size this - 1\<rparr>) = butlast (elements s this)))"
proof (intro conjI impI)
  note vd = validD [OF assms]
  let ?a = "m_buffer (m_data this)" and ?n = "m_size this"
  let ?this' = "this\<lparr>m_size := ?n - 1\<rparr>"
  have el: "elements s this = map (\<lambda>k. load s (?a, k)) [0..<?n]"
    using vd(1) by (rule elements_eq)
  have le': "m_size ?this' \<le> m_capacity (m_data ?this')" using vd(1) by simp
  have el': "elements s' ?this' = map (\<lambda>k. load s' (?a, k)) [0..<?n - 1]" for s' :: "'a store"
    using elements_eq [OF le'] by simp
  have blk: "case ?a of None \<Rightarrow> m_capacity (m_data this) = 0
       | Some a \<Rightarrow> a < fresh s \<and> blocks s a \<noteq> None"
    using vd(4,5) by (auto split: option.splits)
  {
    assume "i < Size this"
    then have i: "i < ?n" by (simp add: Size_def)
    have pre: "\<forall>k\<le>?n - Suc i. \<exists>w. slot_at s (?a, i + k) = Some (Obj w)"
      using vd(2) i by auto
    from move_forward_loop_ok [OF pre, of T] obtain s1 where
      s1: "move_forward_loop T ?a (Suc i) (?n - Suc i) i s = Some s1"
      "\<And>q. slot_at s1 q =
            (if fst q = ?a \<and> i \<le> snd q \<and> snd q < i + (?n - Suc i) then slot_at s (?a, Suc (snd q))
             else if fst q = ?a \<and> snd q = i + (?n - Suc i) \<and> 0 < ?n - Suc i
                  then map_option (map_slot (moved_from T)) (slot_at s q)
                  else slot_at s q)"
      "frame s1 = frame s" "copied s1 = copied s" "moved s1 = moved s" by blast
    have v1: "valid s1 this"
      unfolding valid_iff
    proof (intro conjI allI impI)
      show "?n \<le> m_capacity (m_data this)" by (rule vd(1))
      show "\<exists>w. slot_at s1 (?a, k) = Some (Obj w)" if "k < ?n" for k
        using vd(2) [of k] vd(2) [of "Suc k"] that i by (auto simp: s1(2))
      show "slot_at s1 (?a, k) = Some Raw" if "?n \<le> k \<and> k < m_capacity (m_data this)" for k
        using vd(3) [of k] that i by (auto simp: s1(2))
      show "case ?a of None \<Rightarrow> m_capacity (m_data this) = 0
         | Some a \<Rightarrow> a < fresh s1 \<and> blocks s1 a \<noteq> None"
        using block_frame [OF s1(3) blk] .
      show "0 < elem_size s1" using vd(6) frame_eqD(5) [OF s1(3)] by simp
      show "m_capacity (m_data this) * elem_size s1 < 2 ^ 64"
        using vd(7) frame_eqD(5) [OF s1(3)] by simp
    qed
    let ?s2 = "put_slot s1 (?a, ?n - 1) Raw"
    from validD(2) [OF v1, of "?n - 1"] i
    obtain w where w: "slot_at s1 (?a, ?n - 1) = Some (Obj w)" by auto
    have s2: "slot_at ?s2 q = (if q = (?a, ?n - 1) then Some Raw else slot_at s1 q)" for q
      using w by (simp add: slot_at_put_slot)
    have pop: "PopBack (s1, this) = Some (?s2, ?this')"
      using PopBack_ok [OF v1] i by simp
    have "Erase T i (s, this) = Some (?s2, ?this', ptr_add (begin_it this) i)"
      using i vd(1) s1(1) pop
      by (simp add: Erase_def RawMemory_plus_def std_move_def ptr_add_def begin_it_def
          GetAddress_def)
    moreover have "elements ?s2 ?this' = take i (elements s this) @ drop (Suc i) (elements s this)"
    proof (rule nth_equalityI)
      show "length (elements ?s2 ?this')
          = length (take i (elements s this) @ drop (Suc i) (elements s this))"
        unfolding el el' using i by simp
    next
      fix k assume "k < length (elements ?s2 ?this')"
      then have k: "k < ?n - 1" unfolding el' by simp
      show "elements ?s2 ?this' ! k
          = (take i (elements s this) @ drop (Suc i) (elements s this)) ! k"
        unfolding el el' using k i
        by (auto simp: nth_append load_def s2 s1(2) simp del: One_nat_def)
    qed
    moreover have "slot_at ?s2 (ptr_add (begin_it this) (?n - 1)) = Some Raw"
      by (simp add: s2 ptr_add_def begin_it_def GetAddress_def del: One_nat_def)
    moreover have "valid ?s2 ?this'"
    proof (rule valid_shrink)
      show "?n \<le> m_capacity (m_data this)" by (rule vd(1))
      show "\<exists>w. slot_at ?s2 (?a, k) = Some (Obj w)" if "k < ?n - 1" for k
        using validD(2) [OF v1, of k] that by (simp add: s2 del: One_nat_def)
      show "slot_at ?s2 (?a, k) = Some Raw" if "?n - 1 \<le> k" "k < m_capacity (m_data this)" for k
        using validD(3) [OF v1, of k] that by (auto simp: s2 simp del: One_nat_def)
      show "case ?a of None \<Rightarrow> m_capacity (m_data this) = 0
         | Some a \<Rightarrow> a < fresh ?s2 \<and> blocks ?s2 a \<noteq> None"
        using block_frame [OF frame_put_slot block_frame [OF s1(3) blk]] .
      show "0 < elem_size ?s2"
        using validD(6) [OF v1] frame_eqD(5) [OF frame_put_slot [of s1 "(?a, ?n - 1)" Raw]]
        by simp
      show "m_capacity (m_data this) * elem_size ?s2 < 2 ^ 64"
        using validD(7) [OF v1] frame_eqD(5) [OF frame_put_slot [of s1 "(?a, ?n - 1)" Raw]]
        by simp
    qed
    ultimately show "\<exists>s'. Erase T i (s, this)
                    = Some (s', this\<lparr>m_size := Size this - 1\<rparr>, ptr_add (begin_it this) i)
              \<and> elements s' (this\<lparr>m_size := Size this - 1\<rparr>)
                  = take i (elements s this) @ drop (Suc i) (elements s this)
              \<and> slot_at s' (ptr_add (begin_it this) (Size this - 1)) = Some Raw
              \<and> valid s' (this\<lparr>m_size := Size this - 1\<rparr>)"
      unfolding Size_def by blast
  }
  {
    assume "0 < Size this"
    then have n: "0 < ?n" by (simp add: Size_def)
    let ?s1 = "put_slot s (?a, ?n - 1) Raw"
    from vd(2) [of "?n - 1"] n
    obtain w where w: "slot_at s (?a, ?n - 1) = Some (Obj w)" by auto
    have s1: "slot_at ?s1 q = (if q = (?a, ?n - 1) then Some Raw else slot_at s q)" for q
      using w by (simp add: slot_at_put_slot)
    have pop: "PopBack (s, this) = Some (?s1, ?this')"
      using PopBack_ok [OF assms n] .
    moreover have "Erase T (Size this) (s, this) = Some (?s1, ?this', end_it ?this')"
      using pop by (simp add: Erase_def Size_def)
    moreover have "elements ?s1 ?this' = butlast (elements s this)"
      unfolding el el' using n
      by (simp add: butlast_conv_take take_map load_def s1 min_def del: One_nat_def)
    ultimately show "\<exists>s'. PopBack (s, this) = Some (s', this\<lparr>m_size := Size this - 1\<rparr>)
              \<and> Erase T (Size this) (s, this)
                  = Some (s', this\<lparr>m_size := Size this - 1\<rparr>,
                          end_it (this\<lparr>m_size := Size this - 1\<rparr>))
              \<and> elements s' (this\<lparr>m_size := Size this - 1\<rparr>) = butlast (elements s this)"
      unfolding Size_def by blast
  }
qed

theorem Erase_removes_one_witness:
  "valid (fst two_of_three) (snd two_of_three)
   \<and> (\<exists>s' this'. Erase int_elem 0 two_of_three = Some (s', this', (Some 0, 0))
         \<and> Size this' = 1 \<and> elements s' this' = [Some 2])
   \<and> (\<exists>s' this'. Erase int_elem 2 two_of_three = Some (s', this', (Some 0, 1))
         \<and> Size this' = 1 \<and> elements s' this' = [Some 1])"
proof -
  have c: "Size (snd two_of_three) = 2" "begin_it (snd two_of_three) = (Some 0, 0)"
    "m_buffer (m_data (snd two_of_three)) = Some 0"
    by (simp_all add: two_of_three_def Size_def begin_it_def GetAddress_def)
  from Erase_removes_one [OF two_of_three_valid, of 0 int_elem]
  have "\<exists>s' this'. Erase int_elem 0 two_of_three = Some (s', this', (Some 0, 0))
         \<and> Size this' = 1 \<and> elements s' this' = [Some 2]"
    unfolding two_of_three_elements c by (auto simp: ptr_add_def Size_def)
  moreover from Erase_removes_one [OF two_of_three_valid, of 0 int_elem]
  have "\<exists>s' this'. Erase int_elem 2 two_of_three = Some (s', this', (Some 0, 1))
         \<and> Size this' = 1 \<and> elements s' this' = [Some 1]"
    unfolding two_of_three_elements c
    by (auto simp: end_it_def ptr_add_def GetAddress_def Size_def c(3))
  ultimately show ?thesis using two_of_three_valid by simp
qed

subsection \<open>Copy assignment from a larger source\<close>

lemma fits_mono: "a \<le> b \<Longrightarrow> b * c < m \<Longrightarrow> a * c < (m::nat)"
  by (meson le_less_trans mult_le_mono1)

lemma Vector_copy_cases:
  assumes v: "valid s other" and pos: "0 < m_size other"
  shows "(m_size other \<le> room s
          \<and> (\<exists>s'. Vector_copy T other s
                    = Ok (s', \<lparr>m_data = \<lparr>m_buffer = Some (fresh s), m_capacity = m_size other\<rparr>,
                              m_size = m_size other\<rparr>)
               \<and> (\<forall>k<m_size other.
                     slot_at s' (Some (fresh s), k) = slot_at s (m_buffer (m_data other), k))
               \<and> (\<forall>q. fst q \<noteq> Some (fresh s) \<longrightarrow> slot_at s' q = slot_at s q)
               \<and> fresh s' = Suc (fresh s) \<and> blocks s' (fresh s) \<noteq> None
               \<and> elem_size s' = elem_size s
               \<and> (\<forall>x. x \<noteq> fresh s \<longrightarrow> (blocks s' x = None) = (blocks s x = None))))
       \<or> (\<exists>e s'. Vector_copy T other s = Throw e s'
               \<and> (m_size other \<le> room s \<longrightarrow>
                    (\<exists>k w. k < m_size other
                       \<and> slot_at s (m_buffer (m_data other), k) = Some (Obj w) \<and> copy_throws T w))
               \<and> (\<forall>q. fst q \<noteq> Some (fresh s) \<longrightarrow> slot_at s' q = slot_at s q)
               \<and> fresh s \<le> fresh s' \<and> elem_size s' = elem_size s
               \<and> (\<forall>x. x \<noteq> fresh s \<longrightarrow> (blocks s' x = None) = (blocks s x = None)))"
proof (cases "m_size other \<le> room s")
  case False
  note vd = validD [OF v]
  have fit: "m_size other * elem_size s < 2 ^ 64" using fits_mono [OF vd(1) vd(7)] .
  have "\<not> m_size other * elem_size s \<le> room s * elem_size s" using False vd(6) by simp
  then have "Vector_copy T other s = Throw BadAlloc s"
    using pos fit by (simp add: Vector_copy_def RawMemory_sized_def Allocate_def operator_new_def)
  with False show ?thesis by simp
next
  case True
  let ?a = "m_buffer (m_data other)" and ?b = "Some (fresh s)" and ?n = "m_size other"
  let ?d = "\<lparr>m_buffer = ?b, m_capacity = ?n\<rparr>"
  note vd = validD [OF v]
  have ab: "?a \<noteq> ?b" using vd(4) by (cases ?a) auto
  have fit: "?n * elem_size s < 2 ^ 64" using fits_mono [OF vd(1) vd(7)] .
  from pos have "?n \<noteq> 0" by simp
  from Allocate_ok [OF this True vd(6) fit] obtain s1 where
    s1: "Allocate ?n s = Ok (s1, ?b)"
    "\<And>q. slot_at s1 q = (if fst q = ?b then (if snd q < ?n then Some Raw else None) else slot_at s q)"
    "fresh s1 = Suc (fresh s)" "blocks s1 (fresh s) \<noteq> None"
    "\<And>x. x \<noteq> fresh s \<Longrightarrow> blocks s1 x = blocks s x" "elem_size s1 = elem_size s" by blast
  have c1: "\<forall>k. 0 \<le> k \<and> k < 0 + ?n \<longrightarrow> (\<exists>w. slot_at s1 (?a, 0 + k) = Some (Obj w))"
    using vd(2) ab by (simp add: s1(2))
  have c2: "\<forall>k. 0 \<le> k \<and> k < 0 + ?n \<longrightarrow> slot_at s1 (?b, 0 + k) = Some Raw"
    by (simp add: s1(2))
  have c3: "\<forall>k<(0::nat). \<exists>w. slot_at s1 (?b, 0 + k) = Some (Obj w)" by simp
  have unf: "Vector_copy T other s =
      (case uninitialized_copy_loop T (?a, 0) (?b, 0) 0 ?n s1 of
         Ok s2 \<Rightarrow> Ok (s2, \<lparr>m_data = ?d, m_size = ?n\<rparr>)
       | Throw e s2 \<Rightarrow> (case Deallocate ?b s2 of None \<Rightarrow> Violation | Some s3 \<Rightarrow> Throw e s3)
       | Violation \<Rightarrow> Violation)"
    using s1(1)
    by (simp add: Vector_copy_def RawMemory_sized_def uninitialized_copy_n_def begin_it_def
        GetAddress_def RawMemory_dtor_def split: outcome.splits)
  from uninitialized_copy_loop_cases [OF c1 c2 c3 ab, of T]
  show ?thesis
  proof (elim disjE exE conjE)
    fix s2
    assume a: "uninitialized_copy_loop T (?a, 0) (?b, 0) 0 ?n s1 = Ok s2"
      "\<forall>q. slot_at s2 q =
                (if fst q = ?b \<and> 0 + 0 \<le> snd q \<and> snd q < 0 + 0 + ?n
                 then slot_at s1 (?a, 0 + (snd q - 0)) else slot_at s1 q)"
      "frame s2 = frame s1"
    have "Vector_copy T other s = Ok (s2, \<lparr>m_data = ?d, m_size = ?n\<rparr>)"
      using a(1) by (simp add: unf)
    moreover have "\<forall>k<?n. slot_at s2 (?b, k) = slot_at s (?a, k)"
      using ab by (simp add: a(2) [rule_format] s1(2))
    moreover have "\<forall>q. fst q \<noteq> ?b \<longrightarrow> slot_at s2 q = slot_at s q"
      by (simp add: a(2) [rule_format] s1(2))
    moreover have "fresh s2 = Suc (fresh s)" using frame_eqD(1) [OF a(3)] s1(3) by simp
    moreover have "elem_size s2 = elem_size s" using frame_eqD(5) [OF a(3)] s1(6) by simp
    moreover have "blocks s2 (fresh s) \<noteq> None" using frame_eqD(4) [OF a(3)] s1(4) by simp
    moreover have "\<forall>x. x \<noteq> fresh s \<longrightarrow> (blocks s2 x = None) = (blocks s x = None)"
      using frame_eqD(4) [OF a(3)] s1(5) by simp
    ultimately show ?thesis using True by blast
  next
    fix s2 k w
    assume a: "uninitialized_copy_loop T (?a, 0) (?b, 0) 0 ?n s1 = Throw CopyFailed s2"
      "\<forall>q. slot_at s2 q =
                (if fst q = ?b \<and> 0 \<le> snd q \<and> snd q < 0 + 0 then Some Raw else slot_at s1 q)"
      "frame s2 = frame s1"
      and kw: "0 \<le> k" "k < 0 + ?n" "slot_at s1 (?a, 0 + k) = Some (Obj w)" "copy_throws T w"
    have "blocks s2 (fresh s) \<noteq> None" using frame_eqD(4) [OF a(3)] s1(4) by simp
    from Deallocate_ok [OF this] obtain s3 where
      s3: "Deallocate ?b s2 = Some s3"
      "\<And>q. slot_at s3 q = (if fst q = ?b then None else slot_at s2 q)"
      "fresh s3 = fresh s2" "\<And>x. x \<noteq> fresh s \<Longrightarrow> blocks s3 x = blocks s2 x"
      "elem_size s3 = elem_size s2" by blast
    have "Vector_copy T other s = Throw CopyFailed s3"
      using a(1) s3(1) by (simp add: unf)
    moreover have "\<exists>k w. k < ?n \<and> slot_at s (?a, k) = Some (Obj w) \<and> copy_throws T w"
      using kw ab by (intro exI [of _ k] exI [of _ w]) (simp add: s1(2))
    moreover have "\<forall>q. fst q \<noteq> ?b \<longrightarrow> slot_at s3 q = slot_at s q"
      by (simp add: s3(2) a(2) [rule_format] s1(2))
    moreover have "fresh s \<le> fresh s3" using s3(3) frame_eqD(1) [OF a(3)] s1(3) by simp
    moreover have "elem_size s3 = elem_size s" using s3(5) frame_eqD(5) [OF a(3)] s1(6) by simp
    moreover have "\<forall>x. x \<noteq> fresh s \<longrightarrow> (blocks s3 x = None) = (blocks s x = None)"
      using frame_eqD(4) [OF a(3)] s1(5) s3(4) by simp
    ultimately show ?thesis by blast
  qed
qed


lemma valid_transfer:
  assumes "valid s this"
    and "\<And>k. slot_at s' (m_buffer (m_data this), k) = slot_at s (m_buffer (m_data this), k)"
    and "fresh s \<le> fresh s'"
    and "\<And>x. m_buffer (m_data this) = Some x \<Longrightarrow> blocks s' x \<noteq> None"
    and "elem_size s' = elem_size s"
  shows "valid s' this"
  using assms unfolding valid_iff by (auto split: option.splits)

lemma Vector_dtor_ok:
  assumes v: "valid s this"
  shows "\<exists>s'. Vector_dtor this s = Some s'
      \<and> (\<forall>q. fst q \<noteq> m_buffer (m_data this) \<longrightarrow> slot_at s' q = slot_at s q)
      \<and> fresh s' = fresh s \<and> elem_size s' = elem_size s
      \<and> (\<forall>x. Some x \<noteq> m_buffer (m_data this) \<longrightarrow> (blocks s' x = None) = (blocks s x = None))"
proof -
  let ?a = "m_buffer (m_data this)" and ?n = "m_size this"
  note vd = validD [OF v]
  have "\<forall>k<?n. \<exists>w. slot_at s (?a, 0 + k) = Some (Obj w)" using vd(2) by simp
  from destroy_n_ok [OF this] obtain s1 where
    s1: "destroy_n (?a, 0) ?n s = Some s1"
    "\<And>q. slot_at s1 q = (if fst q = ?a \<and> 0 \<le> snd q \<and> snd q < 0 + ?n then Some Raw else slot_at s q)"
    "frame s1 = frame s" by blast
  show ?thesis
  proof (cases ?a)
    case None
    then have "Vector_dtor this s = Some s1"
      using s1(1) by (simp add: Vector_dtor_def begin_it_def GetAddress_def RawMemory_dtor_def
          Deallocate_def)
    then show ?thesis using frame_eqD [OF s1(3)] by (simp add: s1(2))
  next
    case (Some x)
    with vd(4) have "blocks s x \<noteq> None" by simp
    then have "blocks s1 x \<noteq> None" using frame_eqD(4) [OF s1(3)] by simp
    from Deallocate_ok [OF this] obtain s2 where
      s2: "Deallocate (Some x) s1 = Some s2"
      "\<And>q. slot_at s2 q = (if fst q = Some x then None else slot_at s1 q)"
      "fresh s2 = fresh s1" "\<And>y. y \<noteq> x \<Longrightarrow> blocks s2 y = blocks s1 y"
      "elem_size s2 = elem_size s1" by blast
    have "Vector_dtor this s = Some s2"
      using s1(1) s2(1) Some
      by (simp add: Vector_dtor_def begin_it_def GetAddress_def RawMemory_dtor_def)
    moreover have "\<forall>q. fst q \<noteq> ?a \<longrightarrow> slot_at s2 q = slot_at s q"
      using Some by (simp add: s2(2) s1(2))
    moreover have "fresh s2 = fresh s" using s2(3) frame_eqD(1) [OF s1(3)] by simp
    moreover have "elem_size s2 = elem_size s" using s2(5) frame_eqD(5) [OF s1(3)] by simp
    moreover have "\<forall>y. Some y \<noteq> ?a \<longrightarrow> (blocks s2 y = None) = (blocks s y = None)"
      using Some s2(4) frame_eqD(4) [OF s1(3)] by auto
    ultimately show ?thesis by blast
  qed
qed

text \<open>
  C7. Copy assignment to a well-formed vector from a well-formed source whose size exceeds
  the destination's capacity never runs into undefined behaviour. If it throws, the
  destination object is unchanged, every slot of its block is as before, and so are its
  elements. If it returns, the destination has the size of the source and holds the
  source's element values in order. It returns whenever the allocator can provide the
  slots and no element's copy constructor throws.
\<close>

theorem copy_assign_larger_source:
  assumes vt: "valid s this" and vo: "valid s other" and gt: "Capacity this < Size other"
  shows "(case Vector_copy_assign T (Another other) (s, this) of
            Ok (s', this') \<Rightarrow>
              Size this' = Size other \<and> Capacity this' = Size other
              \<and> elements s' this' = elements s other \<and> valid s' this'
          | Throw e (s', this') \<Rightarrow>
              this' = this \<and> elements s' this = elements s this
              \<and> (\<forall>k. slot_at s' (m_buffer (m_data this), k)
                       = slot_at s (m_buffer (m_data this), k))
              \<and> valid s' this
          | Violation \<Rightarrow> False)
       \<and> (Size other \<le> room s \<and> (\<forall>v. Some v \<in> set (elements s other) \<longrightarrow> \<not> copy_throws T v)
            \<longrightarrow> (\<exists>x. Vector_copy_assign T (Another other) (s, this) = Ok x))"
proof -
  let ?a = "m_buffer (m_data this)" and ?o = "m_buffer (m_data other)"
  let ?b = "Some (fresh s)" and ?n = "m_size other"
  let ?copy = "\<lparr>m_data = \<lparr>m_buffer = ?b, m_capacity = ?n\<rparr>, m_size = ?n\<rparr>"
  let ?old = "\<lparr>m_data = \<lparr>m_buffer = ?a, m_capacity = m_capacity (m_data this)\<rparr>,
               m_size = m_size this\<rparr>"
  note vt' = validD [OF vt] and vo' = validD [OF vo]
  from gt have gt': "m_capacity (m_data this) < ?n" by (simp add: Capacity_def Size_def)
  then have pos: "0 < ?n" by simp
  have ab: "?a \<noteq> ?b" using vt'(4) by (cases ?a) auto
  have elo: "elements s other = map (\<lambda>k. load s (?o, k)) [0..<?n]"
    using vo'(1) by (rule elements_eq)
  have elt: "elements s' this = map (\<lambda>k. load s' (?a, k)) [0..<m_size this]" for s' :: "'a store"
    using vt'(1) by (rule elements_eq)
  have unf: "Vector_copy_assign T (Another other) (s, this) =
      (case Vector_copy T other s of
         Throw e s1 \<Rightarrow> Throw e (s1, this)
       | Violation \<Rightarrow> Violation
       | Ok (s1, copy) \<Rightarrow>
           (case Vector_Swap this copy of
              (this1, copy1) \<Rightarrow>
                (case Vector_dtor copy1 s1 of
                   None \<Rightarrow> Violation
                 | Some s2 \<Rightarrow> Ok (s2, this1))))"
    using gt' by (simp add: Vector_copy_assign_def)
  from Vector_copy_cases [OF vo pos, of T]
  show ?thesis
  proof (elim disjE exE conjE)
    fix s1
    assume a: "Vector_copy T other s = Ok (s1, ?copy)"
      "\<forall>k<?n. slot_at s1 (?b, k) = slot_at s (?o, k)"
      "\<forall>q. fst q \<noteq> ?b \<longrightarrow> slot_at s1 q = slot_at s q"
      "fresh s1 = Suc (fresh s)" "blocks s1 (fresh s) \<noteq> None"
      "\<forall>x. x \<noteq> fresh s \<longrightarrow> (blocks s1 x = None) = (blocks s x = None)"
      "elem_size s1 = elem_size s"
    have sw: "Vector_Swap this ?copy = (?copy, ?old)"
      by (simp add: Vector_Swap_def RawMemory_Swap_def)
    have "valid s1 this"
    proof (rule valid_transfer [OF vt])
      show "slot_at s1 (?a, k) = slot_at s (?a, k)" for k using a(3) ab by simp
      show "fresh s \<le> fresh s1" using a(4) by simp
      show "blocks s1 x \<noteq> None" if "?a = Some x" for x
        using vt'(4) [OF that] a(6) by auto
      show "elem_size s1 = elem_size s" by (rule a(7))
    qed
    then have vold: "valid s1 ?old" by (auto simp: valid_def split: option.splits)
    from Vector_dtor_ok [OF vold] obtain s2 where
      s2: "Vector_dtor ?old s1 = Some s2"
      "\<And>q. fst q \<noteq> ?a \<Longrightarrow> slot_at s2 q = slot_at s1 q"
      "fresh s2 = fresh s1"
      "\<And>x. Some x \<noteq> ?a \<Longrightarrow> (blocks s2 x = None) = (blocks s1 x = None)"
      "elem_size s2 = elem_size s1" by auto
    have res: "Vector_copy_assign T (Another other) (s, this) = Ok (s2, ?copy)"
      using a(1) sw s2(1) by (simp add: unf)
    have slots: "slot_at s2 (?b, k) = slot_at s (?o, k)" if "k < ?n" for k
      using that ab a(2) s2(2) [of "(?b, k)"] by auto
    have le: "m_size ?copy \<le> m_capacity (m_data ?copy)" by simp
    have els: "elements s2 ?copy = elements s other"
      unfolding elo elements_eq [OF le] by (simp add: load_def slots)
    have fit: "?n * elem_size s2 < 2 ^ 64" "0 < elem_size s2"
      using fits_mono [OF vo'(1) vo'(7)] vo'(6) s2(5) a(7) by simp_all
    have "valid s2 ?copy"
      unfolding valid_iff using vo'(2) slots s2(3) s2(4) [of "fresh s"] a(4,5) ab fit by auto
    with els show ?thesis using res by (simp add: Size_def Capacity_def)
  next
    fix e s1
    assume a: "Vector_copy T other s = Throw e s1"
      "?n \<le> room s \<longrightarrow> (\<exists>k w. k < ?n \<and> slot_at s (?o, k) = Some (Obj w) \<and> copy_throws T w)"
      "\<forall>q. fst q \<noteq> ?b \<longrightarrow> slot_at s1 q = slot_at s q"
      "fresh s \<le> fresh s1"
      "\<forall>x. x \<noteq> fresh s \<longrightarrow> (blocks s1 x = None) = (blocks s x = None)"
      "elem_size s1 = elem_size s"
    have res: "Vector_copy_assign T (Another other) (s, this) = Throw e (s1, this)"
      using a(1) by (simp add: unf)
    have same: "slot_at s1 (?a, k) = slot_at s (?a, k)" for k using a(3) ab by simp
    have "valid s1 this"
    proof (rule valid_transfer [OF vt same a(4)])
      show "blocks s1 x \<noteq> None" if "?a = Some x" for x
        using vt'(4) [OF that] a(5) by auto
      show "elem_size s1 = elem_size s" by (rule a(6))
    qed
    moreover have "elements s1 this = elements s this"
      unfolding elt by (simp add: load_def same)
    moreover have "\<not> (?n \<le> room s \<and> (\<forall>v. Some v \<in> set (elements s other) \<longrightarrow> \<not> copy_throws T v))"
    proof
      assume h: "?n \<le> room s \<and> (\<forall>v. Some v \<in> set (elements s other) \<longrightarrow> \<not> copy_throws T v)"
      with a(2) obtain k w where kw: "k < ?n" "slot_at s (?o, k) = Some (Obj w)" "copy_throws T w"
        by blast
      from kw(2) have "load s (?o, k) = Some w" by (simp add: load_iff)
      with kw(1) have "Some w \<in> set (elements s other)" unfolding elo by force
      with h kw(3) show False by blast
    qed
    ultimately show ?thesis using res same by (simp add: Size_def)
  qed
qed

theorem copy_assign_larger_source_witness:
  "(case two_vectors of (s, this, other) \<Rightarrow>
      valid s this \<and> valid s other \<and> Capacity this < Size other
      \<and> (\<exists>s' this'. Vector_copy_assign int_elem (Another other) (s, this) = Ok (s', this')
            \<and> Size this' = 2 \<and> elements s' this' = [Some 1, Some 2])
      \<and> (\<exists>s'. Vector_copy_assign picky_elem (Another other) (s, this)
                 = Throw CopyFailed (s', this)
            \<and> elements s' this = [Some 7]))"
proof -
  obtain s this other where tv: "two_vectors = (s, this, other)" by (cases two_vectors)
  have s_eq: "s = \<lparr>blocks = [0 \<mapsto> [Obj 7], 1 \<mapsto> [Obj 1, Obj 2, Raw]], fresh = 2, room = 10,
        elem_size = 4, copied = 0, moved = 0, lost = 0\<rparr>"
    and this_eq: "this = \<lparr>m_data = \<lparr>m_buffer = Some 0, m_capacity = 1\<rparr>, m_size = 1\<rparr>"
    and other_eq: "other = \<lparr>m_data = \<lparr>m_buffer = Some 1, m_capacity = 3\<rparr>, m_size = 2\<rparr>"
    using tv by (simp_all add: two_vectors_def)
  have vt: "valid s this" and vo: "valid s other"
    by (simp_all add: s_eq this_eq other_eq valid_def load_def slot_at_def upt_conv_Cons)
  have gt: "Capacity this < Size other" by (simp add: this_eq other_eq Capacity_def Size_def)
  have elo: "elements s other = [Some 1, Some 2]"
    by (simp add: s_eq other_eq elements_def Vector_index_def RawMemory_index_def load_def
        slot_at_def upt_conv_Cons)
  have elt: "elements s this = [Some 7]"
    by (simp add: s_eq this_eq elements_def Vector_index_def RawMemory_index_def load_def
        slot_at_def)
  have ok: "Size other \<le> room s
      \<and> (\<forall>v. Some v \<in> set (elements s other) \<longrightarrow> \<not> copy_throws int_elem v)"
    by (simp add: s_eq other_eq Size_def int_elem_def)
  from copy_assign_larger_source [OF vt vo gt, of int_elem] ok
  have "\<exists>s' this'. Vector_copy_assign int_elem (Another other) (s, this) = Ok (s', this')
            \<and> Size this' = 2 \<and> elements s' this' = [Some 1, Some 2]"
    unfolding elo by (auto simp: other_eq Size_def)
  moreover have "\<exists>e s'. Vector_copy_assign picky_elem (Another other) (s, this)
                 = Throw e (s', this)"
    by (simp add: s_eq this_eq other_eq Vector_copy_assign_def Vector_copy_def picky_elem_def
        object_defs raw_memory_defs vector_defs run_simps)
  then have "\<exists>s'. Vector_copy_assign picky_elem (Another other) (s, this)
                 = Throw CopyFailed (s', this)
            \<and> elements s' this = [Some 7]"
    using copy_assign_larger_source [OF vt vo gt, of picky_elem] unfolding elt
    by (auto simp: s_eq this_eq other_eq Vector_copy_assign_def Vector_copy_def picky_elem_def
        object_defs raw_memory_defs vector_defs run_simps)
  ultimately show ?thesis using vt vo gt by (simp add: tv)
qed

subsection \<open>Relocation by move or by copy\<close>

lemma uninitialized_move_n_counts:
  "uninitialized_move_n T p n q s = Some s' \<Longrightarrow> moved s' = moved s + n \<and> copied s' = copied s"
proof (induction n arbitrary: s p q)
  case 0
  then show ?case by simp
next
  case (Suc n)
  then show ?case
    by (fastforce simp: move_construct_def construct_at_def
        split: option.splits slot.splits)
qed

lemma destroy_n_counts:
  "destroy_n p n s = Some s' \<Longrightarrow> moved s' = moved s \<and> copied s' = copied s"
proof (induction n arbitrary: s p)
  case 0
  then show ?case by simp
next
  case (Suc n)
  then show ?case
    by (fastforce simp: destroy_at_def split: option.splits slot.splits)
qed

lemma uninitialized_copy_loop_counts:
  "uninitialized_copy_loop T p q i r s = Ok s' \<Longrightarrow> copied s' = copied s + r \<and> moved s' = moved s"
proof (induction r arbitrary: s i)
  case 0
  then show ?case by simp
next
  case (Suc r)
  then show ?case
    by (fastforce simp: copy_construct_def construct_at_def
        split: option.splits slot.splits outcome.splits if_splits)
qed

lemma Deallocate_counts:
  "Deallocate b s = Some s' \<Longrightarrow> moved s' = moved s \<and> copied s' = copied s"
  by (auto simp: Deallocate_def split: option.splits)

lemma RawMemory_sized_counts:
  "RawMemory_sized n s = Ok (s', d) \<Longrightarrow> moved s' = moved s \<and> copied s' = copied s"
  by (auto simp: RawMemory_sized_def Allocate_def operator_new_def split: if_splits)

lemma construct_at_counts:
  "construct_at p v s = Some s' \<Longrightarrow> moved s' = moved s \<and> copied s' = copied s"
  by (auto simp: construct_at_def split: option.splits slot.splits)


lemma make_object_counts:
  "make_object T a s = Ok (s', x) \<Longrightarrow>
   moved s' = moved s + args_moves a \<and> copied s' = copied s + args_copies a"
  by (cases a) (auto simp: make_object_def split: if_splits)

lemma Reserve_counts:
  assumes "Reserve T n (s, this) = Ok (s', this')" and "m_capacity (m_data this) < n"
  shows "if nothrow_move_constructible T \<or> \<not> copy_constructible T
         then moved s' = moved s + m_size this \<and> copied s' = copied s
         else copied s' = copied s + m_size this \<and> moved s' = moved s"
  using assms
  by (auto simp: Reserve_def RawMemory_Swap_def RawMemory_dtor_def uninitialized_copy_n_def
      split: outcome.splits option.splits prod.splits if_splits
      dest!: uninitialized_move_n_counts destroy_n_counts uninitialized_copy_loop_counts
        Deallocate_counts RawMemory_sized_counts)

lemma Realloc_counts:
  assumes "Realloc T i a (s, this) = Ok (s', this')" and "i \<le> m_size this"
  shows "if nothrow_move_constructible T \<or> \<not> copy_constructible T
         then moved s' = moved s + args_moves a + m_size this
              \<and> copied s' = copied s + args_copies a
         else copied s' = copied s + args_copies a + m_size this
              \<and> moved s' = moved s + args_moves a"
  using assms
  by (auto simp: Realloc_def RawMemory_Swap_def RawMemory_dtor_def uninitialized_copy_n_def
      size_sub_def
      split: outcome.splits option.splits prod.splits if_splits
      dest!: uninitialized_move_n_counts destroy_n_counts uninitialized_copy_loop_counts
        Deallocate_counts RawMemory_sized_counts make_object_counts construct_at_counts)

text \<open>
  C5. Whenever \<^verbatim>\<open>Reserve\<close> reallocates and returns, and whenever \<^verbatim>\<open>Emplace\<close> (hence
  \<^verbatim>\<open>Insert\<close> and \<^verbatim>\<open>EmplaceBack\<close>) takes the reallocation path at a position within the
  vector and returns: if the move constructor of \<^verbatim>\<open>T\<close> is non-throwing or \<^verbatim>\<open>T\<close> has no
  copy constructor, exactly \<^verbatim>\<open>Size()\<close> move constructions and no copy construction
  relocate the elements; otherwise exactly \<^verbatim>\<open>Size()\<close> copy constructions and no move
  construction do. On top of that come only the constructions that build the new element
  from the arguments.
\<close>

theorem relocation_moves_or_copies:
  "(Reserve T n (s, this) = Ok (s', this') \<and> Capacity this < n \<longrightarrow>
      (if nothrow_move_constructible T \<or> \<not> copy_constructible T
       then moved s' = moved s + Size this \<and> copied s' = copied s
       else copied s' = copied s + Size this \<and> moved s' = moved s))
   \<and> (Emplace T i a (s, this) = Ok (s1, this1, it) \<and> Capacity this \<le> Size this
        \<and> i \<le> Size this \<longrightarrow>
      (if nothrow_move_constructible T \<or> \<not> copy_constructible T
       then moved s1 = moved s + args_moves a + Size this
            \<and> copied s1 = copied s + args_copies a
       else copied s1 = copied s + args_copies a + Size this
            \<and> moved s1 = moved s + args_moves a))"
proof (intro conjI impI)
  assume "Reserve T n (s, this) = Ok (s', this') \<and> Capacity this < n"
  then show "if nothrow_move_constructible T \<or> \<not> copy_constructible T
       then moved s' = moved s + Size this \<and> copied s' = copied s
       else copied s' = copied s + Size this \<and> moved s' = moved s"
    using Reserve_counts [of T n s this s' this'] by (simp add: Capacity_def Size_def)
next
  assume a: "Emplace T i a (s, this) = Ok (s1, this1, it) \<and> Capacity this \<le> Size this
        \<and> i \<le> Size this"
  then have "\<exists>this0. Realloc T i a (s, this) = Ok (s1, this0)"
    by (auto simp: Emplace_def Capacity_def Size_def Let_def
        split: outcome.splits option.splits prod.splits)
  then obtain this0 where "Realloc T i a (s, this) = Ok (s1, this0)" ..
  from Realloc_counts [OF this] a
  show "if nothrow_move_constructible T \<or> \<not> copy_constructible T
       then moved s1 = moved s + args_moves a + Size this
            \<and> copied s1 = copied s + args_copies a
       else copied s1 = copied s + args_copies a + Size this
            \<and> moved s1 = moved s + args_moves a"
    by (simp add: Size_def)
qed

theorem relocation_moves_or_copies_witness:
  "(case two_vectors of (s, this, other) \<Rightarrow>
      (\<exists>s' this'. Reserve int_elem 5 (s, other) = Ok (s', this')
          \<and> moved s' = 2 \<and> copied s' = 0)
      \<and> (\<exists>s' this'. Reserve picky_elem 4 (s, this) = Ok (s', this')
          \<and> copied s' = 1 \<and> moved s' = 0)
      \<and> (\<exists>s' this' it. Emplace int_elem 1 (Build 9) (s, this) = Ok (s', this', it)
          \<and> moved s' = 1 \<and> copied s' = 0))"
proof -
  obtain s this other where tv: "two_vectors = (s, this, other)" by (cases two_vectors)
  have s_eq: "s = \<lparr>blocks = [0 \<mapsto> [Obj 7], 1 \<mapsto> [Obj 1, Obj 2, Raw]], fresh = 2, room = 10,
        elem_size = 4, copied = 0, moved = 0, lost = 0\<rparr>"
    and this_eq: "this = \<lparr>m_data = \<lparr>m_buffer = Some 0, m_capacity = 1\<rparr>, m_size = 1\<rparr>"
    and other_eq: "other = \<lparr>m_data = \<lparr>m_buffer = Some 1, m_capacity = 3\<rparr>, m_size = 2\<rparr>"
    using tv by (simp_all add: two_vectors_def)
  have c: "Capacity other = 3" "Size other = 2" "Capacity this = 1" "Size this = 1"
    "moved s = 0" "copied s = 0"
    by (simp_all add: s_eq this_eq other_eq Capacity_def Size_def)
  have "\<exists>s' this'. Reserve int_elem 5 (s, other) = Ok (s', this')"
    by (simp add: s_eq other_eq int_elem_def object_defs raw_memory_defs vector_defs
        run_simps)
  then obtain sa thisa where a: "Reserve int_elem 5 (s, other) = Ok (sa, thisa)" by blast
  have "moved sa = 2 \<and> copied sa = 0"
    using relocation_moves_or_copies [of int_elem 5 s other sa thisa] a c
    by (simp add: int_elem_def)
  with a have 1: "\<exists>s' this'. Reserve int_elem 5 (s, other) = Ok (s', this')
          \<and> moved s' = 2 \<and> copied s' = 0" by blast
  have "\<exists>s' this'. Reserve picky_elem 4 (s, this) = Ok (s', this')"
    by (simp add: s_eq this_eq picky_elem_def object_defs raw_memory_defs vector_defs
        run_simps)
  then obtain sb thisb where b: "Reserve picky_elem 4 (s, this) = Ok (sb, thisb)" by blast
  have "copied sb = 1 \<and> moved sb = 0"
    using relocation_moves_or_copies [of picky_elem 4 s this sb thisb] b c
    by (simp add: picky_elem_def)
  with b have 2: "\<exists>s' this'. Reserve picky_elem 4 (s, this) = Ok (s', this')
          \<and> copied s' = 1 \<and> moved s' = 0" by blast
  have "\<exists>s' this' it. Emplace int_elem 1 (Build 9) (s, this) = Ok (s', this', it)"
    by (simp add: s_eq this_eq int_elem_def object_defs raw_memory_defs vector_defs
        run_simps)
  then obtain sc thisc itc where
    e: "Emplace int_elem 1 (Build 9) (s, this) = Ok (sc, thisc, itc)" by blast
  have "moved sc = 1 \<and> copied sc = 0"
    using relocation_moves_or_copies [of int_elem _ s this _ _ 1 "Build 9" sc thisc itc] e c
    by (simp add: int_elem_def)
  with e have 3: "\<exists>s' this' it. Emplace int_elem 1 (Build 9) (s, this) = Ok (s', this', it)
          \<and> moved s' = 1 \<and> copied s' = 0" by blast
  from 1 2 3 show ?thesis by (simp add: tv)
qed

subsection \<open>Size and capacity along any sequence of calls\<close>







































end
